theory Spec2Isabelle
  imports Complex_Main "HOL-Library.Multiset" "HOL-Library.Log_Nat"
begin

section \<open>Melondy: the plucked-string synthesiser (synth/synthesis.py)\<close>

text \<open>
  The module holds one frozen dataclass, \<^verbatim>\<open>Synthesiser\<close>, with three methods:
  \<^verbatim>\<open>_vibrate\<close> (one string, a Karplus-Strong delay line), \<^verbatim>\<open>_overlay\<close> (mixing the
  strings of a strum with a delay between their onsets) and \<^verbatim>\<open>strum_strings\<close> (their
  composition). \<^verbatim>\<open>_vibrate\<close> and \<^verbatim>\<open>strum_strings\<close> are decorated with
  \<^verbatim>\<open>functools.cache\<close>.

  Conventions of the embedding.
  \<^item> A one-dimensional \<^verbatim>\<open>np.ndarray\<close> is a list. The samples of \<^verbatim>\<open>_vibrate\<close> are
    \<^verbatim>\<open>float64\<close> in the source and real numbers here: rounding and overflow of the
    floating-point operations are not part of this model of \<^verbatim>\<open>_vibrate\<close>.
    \<^verbatim>\<open>_overlay\<close> only adds samples, so it is written for any sample type with \<open>0\<close>
    and \<open>+\<close>; it is used at the reals and at a type of rounded \<^verbatim>\<open>float64\<close> sums.
  \<^item> An exception is a value \<open>Inl e\<close> of a sum type; a call that does not return is
    \<open>None\<close>.
  \<^item> The body of a decorated method and the decorated method are two definitions:
    \<open>vibrate\<close> and \<open>strum_strings\<close> are the bodies, \<open>cached_vibrate\<close> and
    \<open>cached_strum_strings\<close> are what the names \<^verbatim>\<open>_vibrate\<close> and
    \<^verbatim>\<open>strum_strings\<close> denote after decoration. The memo tables are explicit state.
\<close>

subsection \<open>Python and numpy primitives\<close>

datatype error = AssertionError | ZeroDivisionError | ValueError

text \<open>Python's \<^verbatim>\<open>round(x)\<close> with one argument: the nearest integer, ties to the even one.\<close>

definition py_round :: "real \<Rightarrow> int" where
  "py_round x =
     (let n = \<lfloor>x\<rfloor>; r = x - of_int n
      in if r < 1 / 2 then n else if 1 / 2 < r then n + 1 else if even n then n else n + 1)"

text \<open>Sequencing of calls that may raise: the first exception is the result.\<close>

definition bind_error :: "error + 'a \<Rightarrow> ('a \<Rightarrow> error + 'b) \<Rightarrow> error + 'b" where
  "bind_error m f = (case m of Inl e \<Rightarrow> Inl e | Inr x \<Rightarrow> f x)"

text \<open>
  The bounds of the basic slice \<^verbatim>\<open>a[start:stop]\<close> of an array of \<open>n\<close> elements: a
  negative bound counts from the end, both are clipped to \<open>[0, n]\<close>, and a slice whose
  stop is before its start is empty. The result is the first index and the index after
  the last.
\<close>

definition slice_bounds :: "int \<Rightarrow> int \<Rightarrow> nat \<Rightarrow> nat \<times> nat" where
  "slice_bounds start stop n =
     (let lo = (if start < 0 then max (start + int n) 0 else min start (int n));
          hi = (if stop < 0 then max (stop + int n) 0 else min stop (int n))
      in (nat lo, nat (max lo hi)))"

text \<open>
  \<^verbatim>\<open>samples[start:stop] += sound\<close> on one-dimensional arrays. The slice is a view of
  \<open>samples\<close>; \<open>sound\<close> must have the length of the slice, or length 1 (it is then
  broadcast over the slice); any other shape raises \<^verbatim>\<open>ValueError\<close>.
\<close>

definition iadd_slice :: "'a::plus list \<Rightarrow> int \<Rightarrow> int \<Rightarrow> 'a list \<Rightarrow> error + 'a list" where
  "iadd_slice samples start stop sound =
     (case slice_bounds start stop (length samples) of (lo, hi) \<Rightarrow>
        if length sound = hi - lo then
          Inr (take lo samples @ map2 (+) (take (hi - lo) (drop lo samples)) sound @ drop hi samples)
        else if length sound = 1 then
          Inr (take lo samples @ map (\<lambda>x. x + hd sound) (take (hi - lo) (drop lo samples))
                 @ drop hi samples)
        else Inl ValueError)"

subsection \<open>Sums of \<^verbatim>\<open>float64\<close> values that are whole numbers\<close>

text \<open>
  IEEE 754 rounding of a whole number to the nearest \<^verbatim>\<open>float64\<close>, ties to the even
  significand. A \<^verbatim>\<open>float64\<close> has 53 significant bits: a whole number of at most 53 bits
  is a \<^verbatim>\<open>float64\<close>, and a longer one is rounded at its bit \<open>e\<close>, the number of bits
  beyond 53. (\<open>bitlen a\<close> is the number of bits of \<open>a\<close>. Overflow, at magnitudes of
  \<open>2 ^ 1024\<close> and more, is left out.)
\<close>

definition round_float64 :: "int \<Rightarrow> int" where
  "round_float64 n =
     (let a = \<bar>n\<bar>; e = nat (bitlen a - 53); q = a div 2 ^ e; r = a mod 2 ^ e
      in if e = 0 then n
         else if 2 * r < 2 ^ e \<or> (2 * r = 2 ^ e \<and> even q) then sgn n * (q * 2 ^ e)
         else sgn n * ((q + 1) * 2 ^ e))"

text \<open>
  The \<^verbatim>\<open>float64\<close> values that are whole numbers, with the \<^verbatim>\<open>float64\<close> addition: the exact
  sum, rounded.
\<close>

datatype whole_float64 = Whole int

instantiation whole_float64 :: "{zero,plus}"
begin

definition zero_whole_float64 :: whole_float64 where
  "zero_whole_float64 = Whole 0"

definition plus_whole_float64 :: "whole_float64 \<Rightarrow> whole_float64 \<Rightarrow> whole_float64" where
  "plus_whole_float64 a b =
     (case a of Whole x \<Rightarrow> (case b of Whole y \<Rightarrow> Whole (round_float64 (x + y))))"

instance ..

end

subsection \<open>The collaborators of the module\<close>

type_synonym Hertz = real

text \<open>
  Modelled from the spec: the class \<^verbatim>\<open>Time\<close> of \<^verbatim>\<open>temporal.py\<close>, which is not among
  the sources. The spec gives it as a time quantity convertible to an integer sample
  count at a sampling rate, \<^verbatim>\<open>samples = round(duration * sampling_rate)\<close>.
\<close>

datatype Time = Time (seconds: real)

definition get_num_samples :: "Time \<Rightarrow> int \<Rightarrow> int" where
  "get_num_samples t rate = py_round (seconds t * of_int rate)"

datatype Direction = UP | DOWN

record Velocity =
  direction :: Direction
  delay :: Time

record Pitch =
  frequency :: Hertz

text \<open>
  The instrument, as far as the module reads it: its two attributes and its two stroke
  methods. The chord is whatever the stroke methods take.
\<close>

record 'chord PluckedStringInstrument =
  vibration :: Time
  damping :: real
  upstroke :: "'chord \<Rightarrow> Pitch list"
  downstroke :: "'chord \<Rightarrow> Pitch list"

text \<open>
  The functions \<^verbatim>\<open>remove_dc\<close> and \<^verbatim>\<open>normalise\<close> that the module imports from
  \<^verbatim>\<open>processing.py\<close>: parameters of the model, each of which may raise.
\<close>

record processing =
  remove_dc :: "real list \<Rightarrow> error + real list"
  normalise :: "real list \<Rightarrow> error + real list"

subsection \<open>The dataclass\<close>

text \<open>
  A burst generator is called with \<^verbatim>\<open>num_samples\<close> and \<^verbatim>\<open>sampling_rate\<close> and returns
  a fresh array, or raises.
\<close>

record 'chord Synthesiser =
  instrument :: "'chord PluckedStringInstrument"
  burst_generator :: "int \<Rightarrow> int \<Rightarrow> error + real list"
  sampling_rate :: int

subsection \<open>\<^verbatim>\<open>_vibrate\<close>\<close>

text \<open>
  The generator \<^verbatim>\<open>feedback_loop\<close> runs nothing until its first item is requested.
  Its first step divides the sampling rate by the frequency and asks the burst generator
  for the ring buffer.
\<close>

definition feedback_loop_start :: "'chord Synthesiser \<Rightarrow> Hertz \<Rightarrow> error + real list" where
  "feedback_loop_start self freq =
     (if freq = 0 then Inl ZeroDivisionError
      else burst_generator self (py_round (of_int (sampling_rate self) / freq))
             (sampling_rate self))"

text \<open>
  One turn of \<^verbatim>\<open>for i in cycle(range(buffer.size))\<close>, from the buffer and the index
  \<open>i\<close> of the turn: the sample it yields, and the buffer and the index of the next turn.
  \<^verbatim>\<open>cycle\<close> over an empty range is exhausted at once, and the generator returns. The
  index stays below the size of the buffer, so no access is out of range.
\<close>

definition feedback_loop_step ::
    "real \<Rightarrow> real list \<times> nat \<Rightarrow> (real \<times> (real list \<times> nat)) option" where
  "feedback_loop_step damp s =
     (case s of (buffer, i) \<Rightarrow>
        if buffer = [] then None
        else let current_sample = buffer ! i;
                 next_sample = buffer ! ((i + 1) mod length buffer)
             in Some (current_sample,
                      (buffer[i := (current_sample + next_sample) * damp],
                       (i + 1) mod length buffer)))"

text \<open>
  \<^verbatim>\<open>np.fromiter(it, dtype, count)\<close> with \<open>count > 0\<close> reads exactly \<open>count\<close> items and
  raises \<^verbatim>\<open>ValueError\<close> when the iterator ends before.
\<close>

fun fromiter_count :: "real \<Rightarrow> nat \<Rightarrow> real list \<times> nat \<Rightarrow> error + real list" where
  "fromiter_count damp 0 s = Inr []"
| "fromiter_count damp (Suc n) s =
     (case feedback_loop_step damp s of
        None \<Rightarrow> Inl ValueError
      | Some (x, s') \<Rightarrow>
          (case fromiter_count damp n s' of
             Inl e \<Rightarrow> Inl e
           | Inr xs \<Rightarrow> Inr (x # xs)))"

text \<open>With a \<open>count\<close> of -1 it reads until the iterator ends.\<close>

partial_function (option)
  fromiter_all :: "real \<Rightarrow> real list \<times> nat \<Rightarrow> real list \<Rightarrow> real list option" where
  "fromiter_all damp s acc =
     (case feedback_loop_step damp s of
        None \<Rightarrow> Some acc
      | Some (x, s') \<Rightarrow> fromiter_all damp s' (acc @ [x]))"

declare fromiter_all.simps [code]

text \<open>
  \<^verbatim>\<open>np.fromiter(feedback_loop(), np.float64, count)\<close>. With \<open>count = 0\<close> no item is
  requested, so the generator never starts. Of the negative counts only -1 stands for
  "all items": with a \<open>count\<close> below -1 no item is requested either, and the array is
  empty.
\<close>

definition fromiter ::
    "'chord Synthesiser \<Rightarrow> Hertz \<Rightarrow> real \<Rightarrow> int \<Rightarrow> (error + real list) option" where
  "fromiter self freq damp cnt =
     (if cnt = 0 \<or> cnt < - 1 then Some (Inr [])
      else case feedback_loop_start self freq of
             Inl e \<Rightarrow> Some (Inl e)
           | Inr buffer \<Rightarrow>
               if 0 < cnt then Some (fromiter_count damp (nat cnt) (buffer, 0))
               else map_option Inr (fromiter_all damp (buffer, 0) []))"

text \<open>The body of \<^verbatim>\<open>_vibrate\<close>.\<close>

definition vibrate ::
    "processing \<Rightarrow> 'chord Synthesiser \<Rightarrow> Hertz \<Rightarrow> Time \<Rightarrow> real \<Rightarrow> (error + real list) option" where
  "vibrate proc self freq duration damp =
     (if \<not> (0 < damp \<and> damp \<le> 1 / 2) then Some (Inl AssertionError)
      else case fromiter self freq damp (get_num_samples duration (sampling_rate self)) of
             None \<Rightarrow> None
           | Some (Inl e) \<Rightarrow> Some (Inl e)
           | Some (Inr raw) \<Rightarrow> Some (bind_error (remove_dc proc raw) (normalise proc)))"

text \<open>
  \<^verbatim>\<open>functools.cache\<close>: a table from the arguments to the value returned. A call whose
  arguments are in the table returns the stored value; another call runs the body and
  stores what it returns. A call that raises stores nothing. The table of the model is
  the one of a single \<^verbatim>\<open>Synthesiser\<close> (the argument \<^verbatim>\<open>self\<close> is part of the key in
  the source).
\<close>

type_synonym vibrate_cache = "Hertz \<times> Time \<times> real \<rightharpoonup> real list"

definition cached_vibrate ::
    "processing \<Rightarrow> 'chord Synthesiser \<Rightarrow> vibrate_cache \<Rightarrow> Hertz \<Rightarrow> Time \<Rightarrow> real
       \<Rightarrow> ((error + real list) \<times> vibrate_cache) option" where
  "cached_vibrate proc self memo freq duration damp =
     (case memo (freq, duration, damp) of
        Some sound \<Rightarrow> Some (Inr sound, memo)
      | None \<Rightarrow>
          (case vibrate proc self freq duration damp of
             None \<Rightarrow> None
           | Some (Inl e) \<Rightarrow> Some (Inl e, memo)
           | Some (Inr sound) \<Rightarrow> Some (Inr sound, memo((freq, duration, damp) \<mapsto> sound))))"

subsection \<open>\<^verbatim>\<open>_overlay\<close>\<close>

text \<open>Python's \<^verbatim>\<open>max\<close> of an iterable raises \<^verbatim>\<open>ValueError\<close> when it is empty.\<close>

definition py_max :: "int list \<Rightarrow> error + int" where
  "py_max xs = (case xs of [] \<Rightarrow> Inl ValueError | x # rest \<Rightarrow> Inr (fold max rest x))"

text \<open>\<^verbatim>\<open>np.zeros(n)\<close> raises \<^verbatim>\<open>ValueError\<close> for a negative \<open>n\<close>.\<close>

definition zeros :: "int \<Rightarrow> error + 'a::zero list" where
  "zeros n = (if n < 0 then Inl ValueError else Inr (replicate (nat n) 0))"

text \<open>The loop \<^verbatim>\<open>for i, sound in enumerate(sounds)\<close>, from index \<open>i\<close> on.\<close>

fun overlay_loop :: "int \<Rightarrow> nat \<Rightarrow> 'a::plus list list \<Rightarrow> 'a list \<Rightarrow> error + 'a list" where
  "overlay_loop num_delay_samples i [] samples = Inr samples"
| "overlay_loop num_delay_samples i (sound # rest) samples =
     (let offset = int i * num_delay_samples
      in case iadd_slice samples offset (offset + int (length sound)) sound of
           Inl e \<Rightarrow> Inl e
         | Inr samples' \<Rightarrow> overlay_loop num_delay_samples (Suc i) rest samples')"

definition overlay ::
    "'chord Synthesiser \<Rightarrow> 'a::{zero,plus} list list \<Rightarrow> Time \<Rightarrow> error + 'a list" where
  "overlay self sounds delay_time =
     (let num_delay_samples = get_num_samples delay_time (sampling_rate self)
      in bind_error
           (py_max (map (\<lambda>(i, sound). int i * num_delay_samples + int (length sound))
                      (enumerate 0 sounds)))
           (\<lambda>num_samples.
              bind_error (zeros num_samples) (overlay_loop num_delay_samples 0 sounds)))"

subsection \<open>\<^verbatim>\<open>strum_strings\<close>\<close>

text \<open>
  The generator expression inside \<^verbatim>\<open>tuple(...)\<close>: one call of the decorated
  \<^verbatim>\<open>_vibrate\<close> per pitch, in order; the first call that raises ends it.
\<close>

fun vibrate_each ::
    "processing \<Rightarrow> 'chord Synthesiser \<Rightarrow> vibrate_cache \<Rightarrow> Pitch list \<Rightarrow> Time \<Rightarrow> real
       \<Rightarrow> ((error + real list list) \<times> vibrate_cache) option" where
  "vibrate_each proc self memo [] vib damp = Some (Inr [], memo)"
| "vibrate_each proc self memo (pitch # rest) vib damp =
     (case cached_vibrate proc self memo (frequency pitch) vib damp of
        None \<Rightarrow> None
      | Some (Inl e, memo') \<Rightarrow> Some (Inl e, memo')
      | Some (Inr sound, memo') \<Rightarrow>
          (case vibrate_each proc self memo' rest vib damp of
             None \<Rightarrow> None
           | Some (Inl e, memo'') \<Rightarrow> Some (Inl e, memo'')
           | Some (Inr sounds, memo'') \<Rightarrow> Some (Inr (sound # sounds), memo'')))"

text \<open>The body of \<^verbatim>\<open>strum_strings\<close>; the optional argument is an \<open>option\<close>.\<close>

definition strum_strings ::
    "processing \<Rightarrow> 'chord Synthesiser \<Rightarrow> vibrate_cache \<Rightarrow> 'chord \<Rightarrow> Velocity \<Rightarrow> Time option
       \<Rightarrow> ((error + real list) \<times> vibrate_cache) option" where
  "strum_strings proc self memo chord velocity vibration_arg =
     (let vib = (case vibration_arg of None \<Rightarrow> vibration (instrument self) | Some t \<Rightarrow> t);
          stroke = (if direction velocity = UP then upstroke (instrument self)
                    else downstroke (instrument self))
      in case vibrate_each proc self memo (stroke chord) vib (damping (instrument self)) of
           None \<Rightarrow> None
         | Some (Inl e, memo') \<Rightarrow> Some (Inl e, memo')
         | Some (Inr sounds, memo') \<Rightarrow> Some (overlay self sounds (delay velocity), memo'))"

text \<open>The two memo tables of a \<^verbatim>\<open>Synthesiser\<close>.\<close>

record 'chord caches =
  vibrate_memo :: vibrate_cache
  strum_memo :: "'chord \<times> Velocity \<times> Time option \<rightharpoonup> real list"

definition cached_strum_strings ::
    "processing \<Rightarrow> 'chord Synthesiser \<Rightarrow> 'chord caches \<Rightarrow> 'chord \<Rightarrow> Velocity \<Rightarrow> Time option
       \<Rightarrow> ((error + real list) \<times> 'chord caches) option" where
  "cached_strum_strings proc self st chord velocity vibration_arg =
     (case strum_memo st (chord, velocity, vibration_arg) of
        Some samples \<Rightarrow> Some (Inr samples, st)
      | None \<Rightarrow>
          (case strum_strings proc self (vibrate_memo st) chord velocity vibration_arg of
             None \<Rightarrow> None
           | Some (Inl e, memo') \<Rightarrow> Some (Inl e, st\<lparr>vibrate_memo := memo'\<rparr>)
           | Some (Inr samples, memo') \<Rightarrow>
               Some (Inr samples,
                     st\<lparr>vibrate_memo := memo',
                        strum_memo := (strum_memo st)((chord, velocity, vibration_arg) \<mapsto> samples)\<rparr>)))"

subsection \<open>Notions of the specification\<close>

text \<open>
  The recurrence as the specification words it: the ring buffer after \<open>n\<close> steps. Step
  \<open>n\<close> works at index \<open>i = n mod L\<close> and overwrites \<open>buffer[i]\<close> with
  \<open>damping * (buffer[i] + buffer[(i + 1) mod L])\<close>.
\<close>

fun delay_line :: "real \<Rightarrow> real list \<Rightarrow> nat \<Rightarrow> real list" where
  "delay_line damp burst 0 = burst"
| "delay_line damp burst (Suc n) =
     (let buffer = delay_line damp burst n; i = n mod length burst
      in buffer[i := damp * (buffer ! i + buffer ! ((i + 1) mod length burst))])"

text \<open>The largest magnitude held in an array (0 for the empty array).\<close>

definition peak :: "real list \<Rightarrow> real" where
  "peak xs = fold max (map abs xs) 0"

text \<open>
  A memo table of \<^verbatim>\<open>_vibrate\<close> holds only what the body returned for the key: the
  empty table does, and every call keeps it so.
\<close>

definition vibrate_cache_ok :: "processing \<Rightarrow> 'chord Synthesiser \<Rightarrow> vibrate_cache \<Rightarrow> bool" where
  "vibrate_cache_ok proc self memo =
     (\<forall>freq duration damp sound.
        memo (freq, duration, damp) = Some sound \<longrightarrow>
        vibrate proc self freq duration damp = Some (Inr sound))"

text \<open>
  The strum as a function of its arguments alone: the calls of the body of
  \<^verbatim>\<open>_vibrate\<close>, one per pitch and in order, up to the first that raises, and the
  overlay of what they return.
\<close>

fun vibrate_all ::
    "processing \<Rightarrow> 'chord Synthesiser \<Rightarrow> Pitch list \<Rightarrow> Time \<Rightarrow> real
       \<Rightarrow> (error + real list list) option" where
  "vibrate_all proc self [] vib damp = Some (Inr [])"
| "vibrate_all proc self (pitch # rest) vib damp =
     (case vibrate proc self (frequency pitch) vib damp of
        None \<Rightarrow> None
      | Some (Inl e) \<Rightarrow> Some (Inl e)
      | Some (Inr sound) \<Rightarrow>
          (case vibrate_all proc self rest vib damp of
             None \<Rightarrow> None
           | Some (Inl e) \<Rightarrow> Some (Inl e)
           | Some (Inr sounds) \<Rightarrow> Some (Inr (sound # sounds))))"

definition strum_uncached ::
    "processing \<Rightarrow> 'chord Synthesiser \<Rightarrow> 'chord \<Rightarrow> Velocity \<Rightarrow> Time option
       \<Rightarrow> (error + real list) option" where
  "strum_uncached proc self chord velocity vibration_arg =
     (let vib = (case vibration_arg of None \<Rightarrow> vibration (instrument self) | Some t \<Rightarrow> t);
          stroke = (if direction velocity = UP then upstroke (instrument self)
                    else downstroke (instrument self))
      in case vibrate_all proc self (stroke chord) vib (damping (instrument self)) of
           None \<Rightarrow> None
         | Some (Inl e) \<Rightarrow> Some (Inl e)
         | Some (Inr sounds) \<Rightarrow> Some (overlay self sounds (delay velocity)))"

text \<open>
  The two memo tables of a \<^verbatim>\<open>Synthesiser\<close> hold only what the bodies return for the
  keys: the empty tables do, and every call keeps them so.
\<close>

definition caches_ok :: "processing \<Rightarrow> 'chord Synthesiser \<Rightarrow> 'chord caches \<Rightarrow> bool" where
  "caches_ok proc self st =
     (vibrate_cache_ok proc self (vibrate_memo st) \<and>
      (\<forall>chord velocity vibration_arg samples.
         strum_memo st (chord, velocity, vibration_arg) = Some samples \<longrightarrow>
         strum_uncached proc self chord velocity vibration_arg = Some (Inr samples)))"

subsection \<open>An instance for the examples\<close>

text \<open>
  A burst generator that returns \<open>num_samples\<close> samples, alternately 1 and -1, and
  raises for a negative \<open>num_samples\<close>; processing that subtracts the mean and divides
  by the peak; an instrument whose chords are lists of frequencies, played in order on
  the upstroke and in reverse on the downstroke; a synthesiser at 4 samples per second.
\<close>

definition example_burst :: "int \<Rightarrow> int \<Rightarrow> error + real list" where
  "example_burst num_samples rate =
     (if num_samples < 0 then Inl ValueError
      else Inr (map (\<lambda>j. if even j then 1 else - 1) [0..<nat num_samples]))"

definition example_processing :: processing where
  "example_processing =
     \<lparr>remove_dc = (\<lambda>xs. Inr (map (\<lambda>x. x - sum_list xs / of_nat (length xs)) xs)),
      normalise = (\<lambda>xs. if xs = [] then Inl ValueError else Inr (map (\<lambda>x. x / peak xs) xs))\<rparr>"

definition example_instrument :: "Hertz list PluckedStringInstrument" where
  "example_instrument =
     \<lparr>vibration = Time (3 / 4), damping = 1 / 2,
      upstroke = map (\<lambda>f. \<lparr>frequency = f\<rparr>),
      downstroke = (\<lambda>chord. rev (map (\<lambda>f. \<lparr>frequency = f\<rparr>) chord))\<rparr>"

definition example_synth :: "Hertz list Synthesiser" where
  "example_synth =
     \<lparr>instrument = example_instrument, burst_generator = example_burst, sampling_rate = 4\<rparr>"

text \<open>The same synthesiser at the default sampling rate of the module.\<close>

definition default_rate_synth :: "Hertz list Synthesiser" where
  "default_rate_synth = example_synth\<lparr>sampling_rate := 44100\<rparr>"

section \<open>Properties of \<^verbatim>\<open>_vibrate\<close>\<close>

subsection \<open>The feedback loop\<close>

lemma feedback_loop_step_nonempty:
  "buffer \<noteq> [] \<Longrightarrow>
   feedback_loop_step damp (buffer, i) =
     Some (buffer ! i,
           (buffer[i := (buffer ! i + buffer ! ((i + 1) mod length buffer)) * damp],
            (i + 1) mod length buffer))"
  by (simp add: feedback_loop_step_def Let_def)

lemma feedback_loop_step_empty: "feedback_loop_step damp ([], i) = None"
  by (simp add: feedback_loop_step_def)

lemma length_delay_line [simp]: "length (delay_line damp burst n) = length burst"
  by (induction n) (simp_all add: Let_def)

text \<open>
  The loop of the source and the recurrence of the specification agree: reading \<open>m\<close>
  items from the state reached after \<open>n\<close> steps yields the items of steps \<open>n\<close> to
  \<open>n + m - 1\<close>.
\<close>

lemma fromiter_count_delay_line:
  "burst \<noteq> [] \<Longrightarrow>
   fromiter_count damp m (delay_line damp burst n, n mod length burst) =
     Inr (map (\<lambda>k. delay_line damp burst k ! (k mod length burst)) [n..<n + m])"
proof (induction m arbitrary: n)
  case 0
  then show ?case by simp
next
  case (Suc m)
  have ne: "delay_line damp burst n \<noteq> []"
    using Suc.prems by (metis length_delay_line length_0_conv)
  have idx: "(n mod length burst + 1) mod length burst = Suc n mod length burst"
    by (simp add: mod_Suc_eq)
  have nxt: "(delay_line damp burst n)
               [n mod length burst :=
                  (delay_line damp burst n ! (n mod length burst)
                   + delay_line damp burst n ! (Suc n mod length burst)) * damp]
             = delay_line damp burst (Suc n)"
    by (simp add: Let_def mult.commute mod_Suc_eq)
  have upt: "[n..<n + Suc m] = n # [Suc n..<Suc n + m]"
    by (simp add: upt_conv_Cons)
  have step: "feedback_loop_step damp (delay_line damp burst n, n mod length burst) =
      Some (delay_line damp burst n ! (n mod length burst),
            (delay_line damp burst (Suc n), Suc n mod length burst))"
    using feedback_loop_step_nonempty [OF ne, of damp "n mod length burst"]
    by (simp only: length_delay_line idx nxt)
  show ?case
    using Suc.IH [OF Suc.prems, of "Suc n"]
    by (simp only: fromiter_count.simps step upt option.case prod.case sum.case list.map)
qed

lemma fromiter_count_empty: "0 < m \<Longrightarrow> fromiter_count damp m ([], i) = Inl ValueError"
  by (cases m) (simp_all add: feedback_loop_step_empty)

text \<open>An unbounded read returns only when the buffer is empty.\<close>

lemma fromiter_all_Some_empty:
  assumes "fromiter_all damp s acc = Some r"
  shows "fst s = []"
proof (rule fromiter_all.raw_induct [where P = "\<lambda>damp s acc r. fst s = []", OF _ assms])
  fix rec :: "real \<Rightarrow> real list \<times> nat \<Rightarrow> real list \<Rightarrow> real list option"
  fix damp s acc r
  assume IH: "\<And>damp s acc r. rec damp s acc = Some r \<Longrightarrow> fst s = []"
  assume eq: "(case feedback_loop_step damp s of None \<Rightarrow> Some acc
               | Some (x, s') \<Rightarrow> rec damp s' (acc @ [x])) = Some r"
  obtain buffer i where s: "s = (buffer, i)" by (cases s)
  show "fst s = []"
  proof (cases "buffer = []")
    case True
    with s show ?thesis by simp
  next
    case False
    from eq have "rec damp
        (buffer[i := (buffer ! i + buffer ! ((i + 1) mod length buffer)) * damp],
         (i + 1) mod length buffer) (acc @ [buffer ! i]) = Some r"
      by (simp add: s feedback_loop_step_nonempty [OF False])
    from IH [OF this] False show ?thesis by simp
  qed
qed


lemma fromiter_all_empty: "fromiter_all damp ([], i) acc = Some acc"
  by (subst fromiter_all.simps) (simp add: feedback_loop_step_empty)

lemma vibrate_cache_ok_empty: "vibrate_cache_ok proc self Map.empty"
  by (simp add: vibrate_cache_ok_def)

subsection \<open>The check of the damping\<close>

text \<open>
  C3. For a damping \<open>k \<le> 0\<close> or \<open>k > 0.5\<close> the assertion of \<^verbatim>\<open>_vibrate\<close> fails: the
  body raises \<^verbatim>\<open>AssertionError\<close> whatever the frequency, the duration and the burst
  generator are, so before any sample is produced, and the decorated method raises it
  too and leaves its memo table as it was. For \<open>0 < k \<le> 0.5\<close> the assertion passes: the
  result is the one of the synthesis that follows it.
\<close>

theorem vibrate_damping_assertion:
  "(vibrate_cache_ok proc self memo \<and> (damp \<le> 0 \<or> 1 / 2 < damp) \<longrightarrow>
      vibrate proc self freq duration damp = Some (Inl AssertionError) \<and>
      cached_vibrate proc self memo freq duration damp = Some (Inl AssertionError, memo))
   \<and> (0 < damp \<and> damp \<le> 1 / 2 \<longrightarrow>
      vibrate proc self freq duration damp =
        (case fromiter self freq damp (get_num_samples duration (sampling_rate self)) of
           None \<Rightarrow> None
         | Some (Inl e) \<Rightarrow> Some (Inl e)
         | Some (Inr raw) \<Rightarrow> Some (bind_error (remove_dc proc raw) (normalise proc))))"
proof (intro conjI impI)
  assume a: "vibrate_cache_ok proc self memo \<and> (damp \<le> 0 \<or> 1 / 2 < damp)"
  then have bad: "\<not> (0 < damp \<and> damp \<le> 1 / 2)" by auto
  then show raised: "vibrate proc self freq duration damp = Some (Inl AssertionError)"
    by (simp add: vibrate_def)
  have "memo (freq, duration, damp) = None"
  proof (cases "memo (freq, duration, damp)")
    case None
    then show ?thesis .
  next
    case (Some sound)
    with a have "vibrate proc self freq duration damp = Some (Inr sound)"
      by (simp add: vibrate_cache_ok_def)
    with raised show ?thesis by simp
  qed
  then show "cached_vibrate proc self memo freq duration damp = Some (Inl AssertionError, memo)"
    by (simp add: cached_vibrate_def raised)
next
  assume "0 < damp \<and> damp \<le> 1 / 2"
  then show "vibrate proc self freq duration damp =
        (case fromiter self freq damp (get_num_samples duration (sampling_rate self)) of
           None \<Rightarrow> None
         | Some (Inl e) \<Rightarrow> Some (Inl e)
         | Some (Inr raw) \<Rightarrow> Some (bind_error (remove_dc proc raw) (normalise proc)))"
    by (simp add: vibrate_def)
qed

theorem vibrate_damping_assertion_witness:
  "(vibrate_cache_ok example_processing example_synth Map.empty \<and> ((3 / 4 :: real) \<le> 0 \<or> 1 / 2 < (3 / 4 :: real)))
   \<and> vibrate example_processing example_synth 2 (Time (5 / 4)) (3 / 4) = Some (Inl AssertionError)
   \<and> cached_vibrate example_processing example_synth Map.empty 2 (Time (5 / 4)) (3 / 4)
       = Some (Inl AssertionError, Map.empty)
   \<and> (0 < (1 / 2 :: real) \<and> (1 / 2 :: real) \<le> 1 / 2)
   \<and> vibrate example_processing example_synth 2 (Time (5 / 4)) (1 / 2) =
        (case fromiter example_synth 2 (1 / 2) (get_num_samples (Time (5 / 4)) (sampling_rate example_synth)) of
           None \<Rightarrow> None
         | Some (Inl e) \<Rightarrow> Some (Inl e)
         | Some (Inr raw) \<Rightarrow>
             Some (bind_error (remove_dc example_processing raw) (normalise example_processing)))"
  using vibrate_damping_assertion [of example_processing example_synth Map.empty "3 / 4" 2 "Time (5 / 4)"]
    vibrate_damping_assertion [of example_processing example_synth Map.empty "1 / 2" 2 "Time (5 / 4)"]
    vibrate_cache_ok_empty [of example_processing example_synth]
  by simp

lemma fromiter_positive:
  assumes "0 < cnt" "freq \<noteq> 0"
    and "burst_generator self (py_round (of_int (sampling_rate self) / freq)) (sampling_rate self) = Inr burst"
    and "burst \<noteq> []"
  shows "fromiter self freq damp cnt =
           Some (Inr (map (\<lambda>k. delay_line damp burst k ! (k mod length burst)) [0..<nat cnt]))"
proof -
  have "fromiter_count damp (nat cnt) (delay_line damp burst 0, 0 mod length burst) =
          Inr (map (\<lambda>k. delay_line damp burst k ! (k mod length burst)) [0..<0 + nat cnt])"
    using assms(4) by (rule fromiter_count_delay_line)
  then show ?thesis
    using assms(1-3) by (simp add: fromiter_def feedback_loop_start_def)
qed

lemma fromiter_natural:
  assumes "freq \<noteq> 0"
    and "burst_generator self (py_round (of_int (sampling_rate self) / freq)) (sampling_rate self) = Inr burst"
    and "burst \<noteq> []"
  shows "fromiter self freq damp (int n) =
           Some (Inr (map (\<lambda>k. delay_line damp burst k ! (k mod length burst)) [0..<n]))"
proof (cases "n = 0")
  case True
  then show ?thesis by (simp add: fromiter_def)
next
  case False
  then have "0 < int n" by simp
  from fromiter_positive [OF this assms, of damp] show ?thesis by simp
qed

lemma py_round_bounds: "\<lfloor>x\<rfloor> \<le> py_round x \<and> py_round x \<le> \<lfloor>x\<rfloor> + 1"
  by (simp add: py_round_def Let_def)

lemma py_round_nonneg: "0 \<le> x \<Longrightarrow> 0 \<le> py_round x"
  using py_round_bounds [of x] by (simp add: order_trans [of 0 "\<lfloor>x\<rfloor>"])

lemma py_round_positive_arg: "1 \<le> py_round x \<Longrightarrow> 0 \<le> x"
  using py_round_bounds [of x] by linarith

subsection \<open>The delay line and its recurrence\<close>

text \<open>
  C1. For a positive frequency and a valid damping, with a burst generator that returns
  the \<open>L = round(sampling_rate / frequency)\<close> samples it is asked for: the delay line
  of \<^verbatim>\<open>_vibrate\<close> is those \<open>L\<close> samples; a turn of the loop at index \<open>i\<close> yields
  \<open>buffer[i]\<close>, overwrites \<open>buffer[i]\<close> with
  \<open>damping * (buffer[i] + buffer[(i + 1) mod L])\<close> and moves to the index
  \<open>(i + 1) mod L\<close>, which is again below \<open>L\<close>; and the \<open>n\<close> samples read from the
  loop are those of the recurrence of the specification, step \<open>k\<close> read at index
  \<open>k mod L\<close>.
\<close>

theorem vibrate_delay_line_recurrence:
  assumes "0 < freq" and "0 < damp \<and> damp \<le> 1 / 2"
    and "burst_generator self (py_round (of_int (sampling_rate self) / freq)) (sampling_rate self) = Inr burst"
    and "int (length burst) = py_round (of_int (sampling_rate self) / freq)"
  shows "feedback_loop_start self freq = Inr burst
     \<and> (\<forall>buffer i. length buffer = length burst \<and> i < length burst \<longrightarrow>
          feedback_loop_step damp (buffer, i) =
            Some (buffer ! i,
                  (buffer[i := damp * (buffer ! i + buffer ! ((i + 1) mod length burst))],
                   (i + 1) mod length burst))
          \<and> (i + 1) mod length burst < length burst)
     \<and> (\<forall>n. burst \<noteq> [] \<longrightarrow>
          fromiter self freq damp (int n) =
            Some (Inr (map (\<lambda>k. delay_line damp burst k ! (k mod length burst)) [0..<n])))"
proof (intro conjI allI impI)
  show "feedback_loop_start self freq = Inr burst"
    using assms(1,3) by (simp add: feedback_loop_start_def)
next
  fix buffer :: "real list" and i
  assume a: "length buffer = length burst \<and> i < length burst"
  then have ne: "buffer \<noteq> []" by auto
  show "feedback_loop_step damp (buffer, i) =
            Some (buffer ! i,
                  (buffer[i := damp * (buffer ! i + buffer ! ((i + 1) mod length burst))],
                   (i + 1) mod length burst))"
    using a by (simp add: feedback_loop_step_nonempty [OF ne] mult.commute)
  from a have "0 < length burst" by auto
  then show "(i + 1) mod length burst < length burst"
    by simp
next
  fix n
  assume ne: "burst \<noteq> []"
  show "fromiter self freq damp (int n) =
            Some (Inr (map (\<lambda>k. delay_line damp burst k ! (k mod length burst)) [0..<n]))"
    using assms(1) by (intro fromiter_natural [OF _ assms(3) ne]) simp
qed

lemma example_L: "py_round (of_int (sampling_rate example_synth) / 2) = 2"
  by (simp add: example_synth_def py_round_def)

lemma example_burst_2: "burst_generator example_synth 2 (sampling_rate example_synth) = Inr [1, - 1]"
  by (simp add: example_synth_def example_burst_def upt_conv_Cons eval_nat_numeral)

theorem vibrate_delay_line_recurrence_witness:
  "(0 :: real) < 2 \<and> (0 < (1 / 2 :: real) \<and> (1 / 2 :: real) \<le> 1 / 2)
   \<and> burst_generator example_synth (py_round (of_int (sampling_rate example_synth) / 2))
        (sampling_rate example_synth) = Inr [1, - 1]
   \<and> int (length [1, - 1 :: real]) = py_round (of_int (sampling_rate example_synth) / 2)
   \<and> feedback_loop_start example_synth 2 = Inr [1, - 1]
   \<and> feedback_loop_step (1 / 2) ([0, - 1], 1) = Some (- 1, ([0, - (1 / 2)], 0))
   \<and> fromiter example_synth 2 (1 / 2) 5 = Some (Inr [1, - 1, 0, - (1 / 2), - (1 / 4)])"
proof -
  have h1: "(0 :: real) < 2" and h2: "0 < (1 / 2 :: real) \<and> (1 / 2 :: real) \<le> 1 / 2" by simp_all
  have h3: "burst_generator example_synth (py_round (of_int (sampling_rate example_synth) / 2))
        (sampling_rate example_synth) = Inr [1, - 1]"
    by (simp only: example_L example_burst_2)
  have h4: "int (length [1, - 1 :: real]) = py_round (of_int (sampling_rate example_synth) / 2)"
    by (simp only: example_L) simp
  have ev: "map (\<lambda>k. delay_line (1 / 2) [1, - 1] k ! (k mod length [1, - 1 :: real])) [0..<5]
      = [1, - 1, 0, - (1 / 2), - (1 / 4)]"
    by code_simp
  note t = vibrate_delay_line_recurrence [OF h1 h2 h3 h4]
  from t have a: "feedback_loop_start example_synth 2 = Inr [1, - 1]" by blast
  from t have "length [0, - 1 :: real] = length [1, - 1 :: real] \<and> 1 < length [1, - 1 :: real] \<longrightarrow>
      feedback_loop_step (1 / 2) ([0, - 1], 1) =
        Some ([0, - 1] ! 1,
              ([0, - 1][1 := (1 / 2) * ([0, - 1] ! 1 + [0, - 1] ! ((1 + 1) mod length [1, - 1 :: real]))],
               (1 + 1) mod length [1, - 1 :: real]))
      \<and> (1 + 1) mod length [1, - 1 :: real] < length [1, - 1 :: real]" by blast
  then have b: "feedback_loop_step (1 / 2) ([0, - 1], 1) = Some (- 1, ([0, - (1 / 2)], 0))"
    by simp
  from t have "fromiter example_synth 2 (1 / 2) (int 5) =
            Some (Inr (map (\<lambda>k. delay_line (1 / 2) [1, - 1] k ! (k mod length [1, - 1 :: real])) [0..<5]))"
    by blast
  then have c: "fromiter example_synth 2 (1 / 2) 5 = Some (Inr [1, - 1, 0, - (1 / 2), - (1 / 4)])"
    by (simp only: ev of_nat_numeral)
  from h1 h2 h3 h4 a b c show ?thesis by blast
qed

subsection \<open>The waveform returned\<close>

lemma vibrate_of_fromiter:
  "0 < damp \<and> damp \<le> 1 / 2 \<Longrightarrow>
   fromiter self freq damp (get_num_samples duration (sampling_rate self)) = Some (Inr raw) \<Longrightarrow>
   vibrate proc self freq duration damp = Some (bind_error (remove_dc proc raw) (normalise proc))"
  by (simp add: vibrate_def)

text \<open>
  C4, as the claim states it, fails: at the default sampling rate a frequency of 100000
  Hz (positive) gives a delay line of \<open>round(0.441) = 0\<close> samples, the loop yields
  nothing, and \<^verbatim>\<open>np.fromiter\<close>, asked for 88200 samples, raises \<^verbatim>\<open>ValueError\<close>.
\<close>

theorem vibrate_high_frequency_counterexample:
  "(0 :: real) < 100000
   \<and> 0 < get_num_samples (Time 2) (sampling_rate default_rate_synth)
   \<and> (0 < (1 / 2 :: real) \<and> (1 / 2 :: real) \<le> 1 / 2)
   \<and> burst_generator default_rate_synth
        (py_round (of_int (sampling_rate default_rate_synth) / 100000))
        (sampling_rate default_rate_synth) = Inr []
   \<and> vibrate example_processing default_rate_synth 100000 (Time 2) (1 / 2) = Some (Inl ValueError)"
proof -
  have n: "get_num_samples (Time 2) (sampling_rate default_rate_synth) = 88200"
    by (simp add: default_rate_synth_def get_num_samples_def py_round_def)
  have l: "py_round (of_int (sampling_rate default_rate_synth) / 100000) = 0"
    by (simp add: default_rate_synth_def py_round_def)
  have b: "burst_generator default_rate_synth 0 (sampling_rate default_rate_synth) = Inr []"
    by (simp add: default_rate_synth_def example_synth_def example_burst_def)
  have "fromiter default_rate_synth 100000 (1 / 2) 88200 = Some (Inl ValueError)"
    by (simp add: fromiter_def feedback_loop_start_def l b fromiter_count_empty)
  then have "vibrate example_processing default_rate_synth 100000 (Time 2) (1 / 2) = Some (Inl ValueError)"
    by (simp add: vibrate_def n)
  with n l b show ?thesis by simp
qed

text \<open>
  C4, amended. For a positive frequency whose delay line has at least one sample
  (\<open>round(sampling_rate / frequency) \<ge> 1\<close>, the burst generator returning the samples it
  is asked for), a positive duration, of \<open>N\<close> samples, and a damping in \<open>(0, 0.5]\<close>:
  the raw output is the \<open>N\<close> samples of the recurrence, and \<^verbatim>\<open>_vibrate\<close> returns
  \<open>normalise(remove_dc(raw))\<close>, DC removal first, each applied once. Where the two
  functions return arrays of the length of their argument, the waveform returned has
  exactly \<open>N\<close> samples.
\<close>

theorem vibrate_returns_processed_recurrence:
  assumes "0 < freq" and "0 < damp \<and> damp \<le> 1 / 2"
    and "0 < seconds duration"
    and "1 \<le> py_round (of_int (sampling_rate self) / freq)"
    and "burst_generator self (py_round (of_int (sampling_rate self) / freq)) (sampling_rate self)
           = Inr burst"
    and "int (length burst) = py_round (of_int (sampling_rate self) / freq)"
  shows "\<exists>raw. fromiter self freq damp (get_num_samples duration (sampling_rate self)) = Some (Inr raw)
      \<and> raw = map (\<lambda>k. delay_line damp burst k ! (k mod length burst))
                 [0..<nat (get_num_samples duration (sampling_rate self))]
      \<and> int (length raw) = get_num_samples duration (sampling_rate self)
      \<and> vibrate proc self freq duration damp
          = Some (bind_error (remove_dc proc raw) (normalise proc))
      \<and> (\<forall>centred w.
            remove_dc proc raw = Inr centred \<and> length centred = length raw \<and>
            normalise proc centred = Inr w \<and> length w = length centred \<longrightarrow>
            vibrate proc self freq duration damp = Some (Inr w) \<and>
            int (length w) = get_num_samples duration (sampling_rate self))"
proof -
  let ?N = "get_num_samples duration (sampling_rate self)"
  let ?raw = "map (\<lambda>k. delay_line damp burst k ! (k mod length burst)) [0..<nat ?N]"
  from assms(4,6) have ne: "burst \<noteq> []" by auto
  from assms(1) have f0: "freq \<noteq> 0" by simp
  from py_round_positive_arg [OF assms(4)] assms(1)
  have "0 \<le> real_of_int (sampling_rate self)"
    by (simp add: zero_le_divide_iff)
  with assms(3) have "0 \<le> seconds duration * of_int (sampling_rate self)"
    by simp
  then have N: "0 \<le> ?N"
    unfolding get_num_samples_def by (rule py_round_nonneg)
  from fromiter_natural [OF f0 assms(5) ne, of damp "nat ?N"] N
  have run: "fromiter self freq damp ?N = Some (Inr ?raw)"
    by simp
  have len: "int (length ?raw) = ?N"
    using N by simp
  have v: "vibrate proc self freq duration damp
             = Some (bind_error (remove_dc proc ?raw) (normalise proc))"
    by (rule vibrate_of_fromiter [OF assms(2) run])
  have "\<forall>centred w.
            remove_dc proc ?raw = Inr centred \<and> length centred = length ?raw \<and>
            normalise proc centred = Inr w \<and> length w = length centred \<longrightarrow>
            vibrate proc self freq duration damp = Some (Inr w) \<and> int (length w) = ?N"
    using len by (auto simp add: v bind_error_def)
  with run len v show ?thesis by blast
qed

theorem vibrate_returns_processed_recurrence_witness:
  "(0 :: real) < 2 \<and> (0 < (1 / 2 :: real) \<and> (1 / 2 :: real) \<le> 1 / 2)
   \<and> 0 < seconds (Time (5 / 4))
   \<and> 1 \<le> py_round (of_int (sampling_rate example_synth) / 2)
   \<and> burst_generator example_synth (py_round (of_int (sampling_rate example_synth) / 2))
        (sampling_rate example_synth) = Inr [1, - 1]
   \<and> int (length [1, - 1 :: real]) = py_round (of_int (sampling_rate example_synth) / 2)
   \<and> fromiter example_synth 2 (1 / 2) (get_num_samples (Time (5 / 4)) (sampling_rate example_synth))
       = Some (Inr [1, - 1, 0, - (1 / 2), - (1 / 4)])
   \<and> remove_dc example_processing [1, - 1, 0, - (1 / 2), - (1 / 4)]
       = Inr [23 / 20, - (17 / 20), 3 / 20, - (7 / 20), - (1 / 10)]
   \<and> normalise example_processing [23 / 20, - (17 / 20), 3 / 20, - (7 / 20), - (1 / 10)]
       = Inr [1, - (17 / 23), 3 / 23, - (7 / 23), - (2 / 23)]
   \<and> vibrate example_processing example_synth 2 (Time (5 / 4)) (1 / 2)
       = Some (Inr [1, - (17 / 23), 3 / 23, - (7 / 23), - (2 / 23)])
   \<and> int (length [1, - (17 / 23), 3 / 23, - (7 / 23), - (2 / 23 :: real)])
       = get_num_samples (Time (5 / 4)) (sampling_rate example_synth)"
proof -
  let ?N = "get_num_samples (Time (5 / 4)) (sampling_rate example_synth)"
  have n: "?N = 5"
    by (simp add: example_synth_def get_num_samples_def py_round_def)
  have h1: "(0 :: real) < 2" and h2: "0 < (1 / 2 :: real) \<and> (1 / 2 :: real) \<le> 1 / 2" by simp_all
  have h3: "0 < seconds (Time (5 / 4))" by simp
  have h4: "1 \<le> py_round (of_int (sampling_rate example_synth) / 2)" by (simp add: example_L)
  have h5: "burst_generator example_synth (py_round (of_int (sampling_rate example_synth) / 2))
        (sampling_rate example_synth) = Inr [1, - 1]"
    by (simp only: example_L example_burst_2)
  have h6: "int (length [1, - 1 :: real]) = py_round (of_int (sampling_rate example_synth) / 2)"
    by (simp only: example_L) simp
  have ev: "map (\<lambda>k. delay_line (1 / 2) [1, - 1] k ! (k mod length [1, - 1 :: real])) [0..<5]
      = [1, - 1, 0, - (1 / 2), - (1 / 4)]"
    by code_simp
  have rd: "remove_dc example_processing [1, - 1, 0, - (1 / 2), - (1 / 4)]
       = Inr [23 / 20, - (17 / 20), 3 / 20, - (7 / 20), - (1 / 10)]"
    by (simp add: example_processing_def)
  have nm: "normalise example_processing [23 / 20, - (17 / 20), 3 / 20, - (7 / 20), - (1 / 10)]
       = Inr [1, - (17 / 23), 3 / 23, - (7 / 23), - (2 / 23)]"
    by (simp add: example_processing_def peak_def)
  from vibrate_returns_processed_recurrence [OF h1 h2 h3 h4 h5 h6, of example_processing]
  obtain raw where
    r1: "fromiter example_synth 2 (1 / 2) ?N = Some (Inr raw)"
    and r2: "raw = map (\<lambda>k. delay_line (1 / 2) [1, - 1] k ! (k mod length [1, - 1 :: real]))
                 [0..<nat ?N]"
    and r5: "\<forall>centred w.
            remove_dc example_processing raw = Inr centred \<and> length centred = length raw \<and>
            normalise example_processing centred = Inr w \<and> length w = length centred \<longrightarrow>
            vibrate example_processing example_synth 2 (Time (5 / 4)) (1 / 2) = Some (Inr w) \<and>
            int (length w) = ?N"
    by blast
  have raw: "raw = [1, - 1, 0, - (1 / 2), - (1 / 4)]"
    using r2 ev by (simp add: n)
  from r5 [rule_format, of "[23 / 20, - (17 / 20), 3 / 20, - (7 / 20), - (1 / 10)]"
      "[1, - (17 / 23), 3 / 23, - (7 / 23), - (2 / 23)]"] rd nm
  have fin: "vibrate example_processing example_synth 2 (Time (5 / 4)) (1 / 2)
       = Some (Inr [1, - (17 / 23), 3 / 23, - (7 / 23), - (2 / 23)])
     \<and> int (length [1, - (17 / 23), 3 / 23, - (7 / 23), - (2 / 23 :: real)]) = ?N"
    by (simp add: raw)
  from h1 h2 h3 h4 h5 h6 r1 raw rd nm fin show ?thesis by simp
qed

subsection \<open>Stability\<close>

lemma peak_Max: "peak xs = Max (insert 0 (abs ` set xs))"
proof -
  have "peak xs = Max (set (0 # map abs xs))"
    unfolding peak_def by (rule Max.set_eq_fold [symmetric])
  then show ?thesis by simp
qed

lemma peak_nonneg: "0 \<le> peak xs"
  by (simp add: peak_Max)

lemma peak_ge: "x \<in> set xs \<Longrightarrow> \<bar>x\<bar> \<le> peak xs"
  by (simp add: peak_Max)

lemma peak_le: "0 \<le> b \<Longrightarrow> (\<And>x. x \<in> set xs \<Longrightarrow> \<bar>x\<bar> \<le> b) \<Longrightarrow> peak xs \<le> b"
  by (auto simp add: peak_Max)

lemma next_index_in_range: "i < n \<Longrightarrow> (i + 1) mod n < (n :: nat)"
  by (cases n) simp_all

lemma damped_sum_bound:
  fixes a b :: real
  assumes "0 < damp \<and> damp \<le> 1 / 2" "\<bar>a\<bar> \<le> p" "\<bar>b\<bar> \<le> p"
  shows "\<bar>(a + b) * damp\<bar> \<le> p"
proof -
  have p0: "0 \<le> p" using assms(2) by linarith
  have "\<bar>(a + b) * damp\<bar> = \<bar>a + b\<bar> * damp"
    using assms(1) by (simp add: abs_mult)
  also have "\<dots> \<le> (2 * p) * damp"
    using assms by (intro mult_right_mono) linarith+
  also have "\<dots> \<le> (2 * p) * (1 / 2)"
    using assms(1) p0 by (intro mult_left_mono) linarith+
  finally show ?thesis by simp
qed

lemma peak_update:
  assumes "0 < damp \<and> damp \<le> 1 / 2" "i < length buffer"
  shows "peak (buffer[i := (buffer ! i + buffer ! ((i + 1) mod length buffer)) * damp]) \<le> peak buffer"
proof (rule peak_le [OF peak_nonneg])
  fix x
  assume "x \<in> set (buffer[i := (buffer ! i + buffer ! ((i + 1) mod length buffer)) * damp])"
  then have "x = (buffer ! i + buffer ! ((i + 1) mod length buffer)) * damp \<or> x \<in> set buffer"
    using set_update_subset_insert by fastforce
  moreover have "(i + 1) mod length buffer < length buffer"
    using assms(2) by (rule next_index_in_range)
  then have "\<bar>(buffer ! i + buffer ! ((i + 1) mod length buffer)) * damp\<bar> \<le> peak buffer"
    using assms by (intro damped_sum_bound peak_ge nth_mem)
  ultimately show "\<bar>x\<bar> \<le> peak buffer"
    using peak_ge by blast
qed

lemma fromiter_count_bounded:
  assumes "0 < damp \<and> damp \<le> 1 / 2"
  shows "fromiter_count damp n (buffer, i) = Inr raw \<Longrightarrow> i < length buffer \<Longrightarrow>
         x \<in> set raw \<Longrightarrow> \<bar>x\<bar> \<le> peak buffer"
proof (induction n arbitrary: buffer i raw)
  case 0
  then show ?case by simp
next
  case (Suc n)
  let ?b = "buffer[i := (buffer ! i + buffer ! ((i + 1) mod length buffer)) * damp]"
  let ?j = "(i + 1) mod length buffer"
  from Suc.prems(2) have ne: "buffer \<noteq> []" by auto
  from Suc.prems(2) have j: "?j < length ?b" by (simp add: next_index_in_range del: One_nat_def)
  from Suc.prems(1) obtain rest where
    rest: "fromiter_count damp n (?b, ?j) = Inr rest" and raw: "raw = buffer ! i # rest"
    by (auto simp add: feedback_loop_step_nonempty [OF ne] split: sum.splits)
  from Suc.prems(3) raw have "x = buffer ! i \<or> x \<in> set rest" by simp
  then show ?case
  proof
    assume "x = buffer ! i"
    then show ?thesis using Suc.prems(2) by (simp add: peak_ge)
  next
    assume "x \<in> set rest"
    from Suc.IH [OF rest j this] have "\<bar>x\<bar> \<le> peak ?b" .
    also have "\<dots> \<le> peak buffer" by (rule peak_update [OF assms Suc.prems(2)])
    finally show ?thesis .
  qed
qed

text \<open>
  C8. For a damping in \<open>(0, 0.5]\<close>: a turn of the loop yields a sample no larger in
  magnitude than the peak of the ring buffer and leaves a buffer whose peak is no larger
  than before; so every sample of the raw output is bounded in magnitude by the peak of
  the initial burst.
\<close>

theorem feedback_loop_never_grows:
  assumes "0 < damp \<and> damp \<le> 1 / 2"
  shows "(\<forall>buffer i x buffer' i'.
            i < length buffer \<and> feedback_loop_step damp (buffer, i) = Some (x, (buffer', i')) \<longrightarrow>
            \<bar>x\<bar> \<le> peak buffer \<and> peak buffer' \<le> peak buffer \<and> i' < length buffer')
     \<and> (feedback_loop_start self freq = Inr burst \<and> fromiter self freq damp cnt = Some (Inr raw) \<longrightarrow>
          (\<forall>x\<in>set raw. \<bar>x\<bar> \<le> peak burst))"
proof (intro conjI allI impI)
  fix buffer :: "real list" and i x buffer' i'
  assume a: "i < length buffer \<and> feedback_loop_step damp (buffer, i) = Some (x, (buffer', i'))"
  then have ne: "buffer \<noteq> []" by auto
  from a have x: "x = buffer ! i"
    and b: "buffer' = buffer[i := (buffer ! i + buffer ! ((i + 1) mod length buffer)) * damp]"
    and i': "i' = (i + 1) mod length buffer"
    by (auto simp add: feedback_loop_step_nonempty [OF ne])
  show "\<bar>x\<bar> \<le> peak buffer" using a x by (simp add: peak_ge)
  show "peak buffer' \<le> peak buffer" unfolding b using assms a by (intro peak_update) simp_all
  show "i' < length buffer'" using a by (simp add: b i' next_index_in_range del: One_nat_def)
next
  assume "feedback_loop_start self freq = Inr burst \<and> fromiter self freq damp cnt = Some (Inr raw)"
  then have st: "feedback_loop_start self freq = Inr burst"
    and a: "fromiter self freq damp cnt = Some (Inr raw)"
    by simp_all
  show "\<forall>x\<in>set raw. \<bar>x\<bar> \<le> peak burst"
  proof
    fix x assume x: "x \<in> set raw"
    consider "cnt = 0 \<or> cnt < - 1" | "0 < cnt" | "cnt = - 1" by linarith
    then show "\<bar>x\<bar> \<le> peak burst"
    proof cases
      case 1
      with a have "raw = []" by (auto simp add: fromiter_def)
      with x show ?thesis by simp
    next
      case 2
      with a have run: "fromiter_count damp (nat cnt) (burst, 0) = Inr raw"
        by (simp add: fromiter_def st)
      show ?thesis
      proof (cases "burst = []")
        case True
        with run 2 show ?thesis by (simp add: fromiter_count_empty)
      next
        case False
        then have "0 < length burst" by simp
        from fromiter_count_bounded [OF assms run this x] show ?thesis .
      qed
    next
      case 3
      with a have run: "fromiter_all damp (burst, 0) [] = Some raw"
        by (auto simp add: fromiter_def st)
      from fromiter_all_Some_empty [OF run] have "burst = []" by simp
      with run have "raw = []" by (simp add: fromiter_all_empty)
      with x show ?thesis by simp
    qed
  qed
qed

lemma example_fromiter_5:
  "fromiter example_synth 2 (1 / 2) 5 = Some (Inr [1, - 1, 0, - (1 / 2), - (1 / 4)])"
  by code_simp

theorem feedback_loop_never_grows_witness:
  "(0 < (1 / 2 :: real) \<and> (1 / 2 :: real) \<le> 1 / 2)
   \<and> (1 :: nat) < length [0, - 1 :: real]
   \<and> feedback_loop_step (1 / 2) ([0, - 1], 1) = Some (- 1, ([0, - (1 / 2)], 0))
   \<and> \<bar>- 1 :: real\<bar> \<le> peak [0, - 1] \<and> peak [0, - (1 / 2)] \<le> peak [0, - 1]
   \<and> (0 :: nat) < length [0, - (1 / 2) :: real]
   \<and> feedback_loop_start example_synth 2 = Inr [1, - 1]
   \<and> fromiter example_synth 2 (1 / 2) 5 = Some (Inr [1, - 1, 0, - (1 / 2), - (1 / 4)])
   \<and> peak [1, - 1] = 1
   \<and> list_all (\<lambda>x. \<bar>x\<bar> \<le> peak [1, - 1]) [1, - 1, 0, - (1 / 2), - (1 / 4)]"
proof -
  have h: "0 < (1 / 2 :: real) \<and> (1 / 2 :: real) \<le> 1 / 2" by simp
  have s: "feedback_loop_step (1 / 2) ([0, - 1], 1) = Some (- 1, ([0, - (1 / 2)], 0))"
    by (simp add: feedback_loop_step_def)
  have st: "feedback_loop_start example_synth 2 = Inr [1, - 1]"
    by (simp add: feedback_loop_start_def example_L example_burst_2)
  have p: "peak [1, - 1] = 1" by (simp add: peak_def)
  note t = feedback_loop_never_grows [OF h, of example_synth 2 "[1, - 1]" 5
      "[1, - 1, 0, - (1 / 2), - (1 / 4)]"]
  from t s have a: "\<bar>- 1 :: real\<bar> \<le> peak [0, - 1] \<and> peak [0, - (1 / 2)] \<le> peak [0, - 1]
      \<and> (0 :: nat) < length [0, - (1 / 2) :: real]"
    by (metis (no_types, lifting) One_nat_def length_Cons lessI list.size(3))
  from t st example_fromiter_5
  have b: "\<forall>x\<in>set [1, - 1, 0, - (1 / 2), - (1 / 4)]. \<bar>x\<bar> \<le> peak [1, - 1 :: real]"
    by blast
  then have c: "list_all (\<lambda>x. \<bar>x\<bar> \<le> peak [1, - 1]) [1, - 1, 0, - (1 / 2), - (1 / 4)]"
    by (simp only: list_all_iff)
  from h s st example_fromiter_5 p a c show ?thesis by simp
qed

subsection \<open>Frequencies and durations that are not checked\<close>




section \<open>Properties of \<^verbatim>\<open>_overlay\<close>\<close>

lemma slice_bounds_in_range:
  "off + len \<le> n \<Longrightarrow> slice_bounds (int off) (int off + int len) n = (off, off + len)"
  by (simp add: slice_bounds_def Let_def nat_add_distrib)

lemma iadd_slice_in_range:
  fixes samples :: "'a::plus list"
  assumes "off + length sound \<le> length samples"
  shows "\<exists>out. iadd_slice samples (int off) (int off + int (length sound)) sound = Inr out
      \<and> length out = length samples
      \<and> (\<forall>j<length samples.
            out ! j = (if off \<le> j \<and> j < off + length sound
                       then samples ! j + sound ! (j - off) else samples ! j))"
proof -
  let ?out = "take off samples
      @ map2 (+) (take (length sound) (drop off samples)) sound
      @ drop (off + length sound) samples"
  have eq: "iadd_slice samples (int off) (int off + int (length sound)) sound = Inr ?out"
    by (simp add: iadd_slice_def slice_bounds_in_range [OF assms])
  have len: "length ?out = length samples"
    using assms by simp
  let ?A = "take off samples"
  let ?B = "map2 (+) (take (length sound) (drop off samples)) sound"
  let ?C = "drop (off + length sound) samples"
  have lenA: "length ?A = off" using assms by simp
  have lenB: "length ?B = length sound" using assms by simp
  have nth: "?out ! j = (if off \<le> j \<and> j < off + length sound
                       then samples ! j + sound ! (j - off) else samples ! j)"
    if "j < length samples" for j
  proof -
    consider "j < off" | "off \<le> j" "j < off + length sound" | "off + length sound \<le> j"
      by linarith
    then show ?thesis
    proof cases
      case 1
      then have "?out ! j = ?A ! j" by (simp only: nth_append lenA if_True)
      with 1 show ?thesis by simp
    next
      case 2
      then have k: "j - off < length sound" by simp
      from 2 have "?out ! j = (?B @ ?C) ! (j - off)"
        by (simp only: nth_append lenA) simp
      also have "\<dots> = ?B ! (j - off)"
        using k by (simp only: nth_append lenB if_True)
      also have "\<dots> = take (length sound) (drop off samples) ! (j - off) + sound ! (j - off)"
        using k assms by simp
      also have "take (length sound) (drop off samples) ! (j - off) = samples ! j"
        using k assms 2 by simp
      finally show ?thesis using 2 by simp
    next
      case 3
      then have "?out ! j = (?B @ ?C) ! (j - off)"
        by (simp only: nth_append lenA) simp
      also have "\<dots> = ?C ! (j - off - length sound)"
        using 3 by (simp only: nth_append lenB) simp
      also have "\<dots> = samples ! j"
        using 3 that by simp
      finally show ?thesis using 3 by simp
    qed
  qed
  from eq len nth show ?thesis by blast
qed

lemma overlay_loop_append:
  "overlay_loop d i (xs @ ys) samples
     = bind_error (overlay_loop d i xs samples) (overlay_loop d (i + length xs) ys)"
proof (induction xs arbitrary: i samples)
  case Nil
  show ?case by (simp add: bind_error_def)
next
  case (Cons x xs)
  show ?case
  proof (cases "iadd_slice samples (int i * d) (int i * d + int (length x)) x")
    case (Inl e)
    then show ?thesis by (simp add: bind_error_def Let_def)
  next
    case (Inr samples')
    then show ?thesis by (simp add: Cons.IH Let_def)
  qed
qed

lemma overlay_loop_in_range:
  fixes samples :: "'a::plus list"
  shows "\<forall>i<length sounds. i * d + length (sounds ! i) \<le> length samples \<Longrightarrow>
    \<exists>out. overlay_loop (int d) 0 sounds samples = Inr out
      \<and> length out = length samples
      \<and> (\<forall>j<length samples.
            out ! j = foldl (+) (samples ! j)
                        (map (\<lambda>i. sounds ! i ! (j - i * d))
                           (filter (\<lambda>i. i * d \<le> j \<and> j < i * d + length (sounds ! i))
                              [0..<length sounds])))"
proof (induction sounds rule: rev_induct)
  case Nil
  then show ?case by simp
next
  case (snoc s xs)
  let ?n = "length xs"
  have "\<forall>i<?n. i * d + length (xs ! i) \<le> length samples"
  proof (intro allI impI)
    fix i assume i: "i < ?n"
    then have "i < length (xs @ [s])" by simp
    with snoc.prems have "i * d + length ((xs @ [s]) ! i) \<le> length samples" by blast
    with i show "i * d + length (xs ! i) \<le> length samples" by (simp add: nth_append)
  qed
  from snoc.IH [OF this] obtain mid where
    mid: "overlay_loop (int d) 0 xs samples = Inr mid"
    and mid_len: "length mid = length samples"
    and mid_nth: "\<And>j. j < length samples \<Longrightarrow>
            mid ! j = foldl (+) (samples ! j)
                        (map (\<lambda>i. xs ! i ! (j - i * d))
                           (filter (\<lambda>i. i * d \<le> j \<and> j < i * d + length (xs ! i)) [0..<?n]))"
    by blast
  have "?n < length (xs @ [s])" by simp
  with snoc.prems have "?n * d + length ((xs @ [s]) ! ?n) \<le> length samples" by blast
  then have fit: "?n * d + length s \<le> length mid"
    by (simp add: mid_len)
  from iadd_slice_in_range [OF fit] obtain out where
    out: "iadd_slice mid (int (?n * d)) (int (?n * d) + int (length s)) s = Inr out"
    and out_len: "length out = length mid"
    and out_nth: "\<And>j. j < length mid \<Longrightarrow>
            out ! j = (if ?n * d \<le> j \<and> j < ?n * d + length s
                       then mid ! j + s ! (j - ?n * d) else mid ! j)"
    by blast
  have "overlay_loop (int d) 0 (xs @ [s]) samples = overlay_loop (int d) ?n [s] mid"
    by (simp add: overlay_loop_append mid bind_error_def)
  also have "\<dots> = Inr out"
    using out by (simp add: Let_def)
  finally have run: "overlay_loop (int d) 0 (xs @ [s]) samples = Inr out" .
  have nth: "out ! j = foldl (+) (samples ! j)
                        (map (\<lambda>i. (xs @ [s]) ! i ! (j - i * d))
                           (filter (\<lambda>i. i * d \<le> j \<and> j < i * d + length ((xs @ [s]) ! i))
                              [0..<length (xs @ [s])]))"
    if j: "j < length samples" for j
  proof -
    let ?P = "\<lambda>i. i * d \<le> j \<and> j < i * d + length ((xs @ [s]) ! i)"
    let ?f = "\<lambda>i. (xs @ [s]) ! i ! (j - i * d)"
    have f: "filter ?P [0..<?n]
        = filter (\<lambda>i. i * d \<le> j \<and> j < i * d + length (xs ! i)) [0..<?n]"
      by (rule filter_cong) (simp_all add: nth_append)
    have old: "map ?f (filter ?P [0..<?n])
           = map (\<lambda>i. xs ! i ! (j - i * d))
               (filter (\<lambda>i. i * d \<le> j \<and> j < i * d + length (xs ! i)) [0..<?n])"
      unfolding f by (rule map_cong) (simp_all add: nth_append)
    have split: "map ?f (filter ?P [0..<length (xs @ [s])])
        = map ?f (filter ?P [0..<?n]) @ (if ?P ?n then [?f ?n] else [])"
      by simp
    have last: "?P ?n \<longleftrightarrow> ?n * d \<le> j \<and> j < ?n * d + length s" and lastv: "?f ?n = s ! (j - ?n * d)"
      by simp_all
    have "foldl (+) (samples ! j) (map ?f (filter ?P [0..<length (xs @ [s])]))
        = (if ?P ?n then foldl (+) (samples ! j) (map ?f (filter ?P [0..<?n])) + ?f ?n
           else foldl (+) (samples ! j) (map ?f (filter ?P [0..<?n])))"
      unfolding split by simp
    also have "\<dots> = (if ?n * d \<le> j \<and> j < ?n * d + length s then mid ! j + s ! (j - ?n * d) else mid ! j)"
      unfolding old mid_nth [OF j, symmetric] last lastv ..
    also have "\<dots> = out ! j"
      using out_nth [of j] j by (simp only: mid_len)
    finally show ?thesis by (rule sym)
  qed
  from run out_len mid_len nth show ?case by auto
qed

lemma enumerate_map_nth:
  "map (\<lambda>(i, x). f i x) (enumerate 0 xs) = map (\<lambda>i. f i (xs ! i)) [0..<length xs]"
  by (rule nth_equalityI) (simp_all add: nth_enumerate_eq)

lemma py_max_int:
  assumes "ns \<noteq> []"
  shows "py_max (map int ns) = Inr (int (Max (set ns)))"
proof -
  from assms obtain n rest where ns: "ns = n # rest" by (cases ns) auto
  have "fold max (map int rest) (int n) = Max (set (int n # map int rest))"
    by (rule Max.set_eq_fold [symmetric])
  also have "\<dots> = Max (int ` set ns)" by (simp add: ns)
  also have "\<dots> = int (Max (set ns))"
    using assms by (intro mono_Max_commute [symmetric] monoI) simp_all
  finally show ?thesis by (simp add: py_max_def ns)
qed

lemma overlay_nonneg_delay:
  fixes sounds :: "'a::{zero,plus} list list"
  assumes "sounds \<noteq> []" and "get_num_samples delay_time (sampling_rate self) = int d"
  shows "overlay self sounds delay_time
     = overlay_loop (int d) 0 sounds
         (replicate (Max ((\<lambda>i. i * d + length (sounds ! i)) ` {..<length sounds})) 0)"
proof -
  let ?ns = "map (\<lambda>i. i * d + length (sounds ! i)) [0..<length sounds]"
  have ne: "?ns \<noteq> []" using assms(1) by simp
  have "map (\<lambda>(i, sound). int i * int d + int (length sound)) (enumerate 0 sounds)
      = map (\<lambda>i. int i * int d + int (length (sounds ! i))) [0..<length sounds]"
    by (rule enumerate_map_nth)
  also have "\<dots> = map int ?ns" by simp
  finally have "py_max (map (\<lambda>(i, sound). int i * int d + int (length sound)) (enumerate 0 sounds))
      = Inr (int (Max (set ?ns)))"
    by (simp only: py_max_int [OF ne])
  moreover have "set ?ns = (\<lambda>i. i * d + length (sounds ! i)) ` {..<length sounds}"
    by (simp add: lessThan_atLeast0)
  ultimately show ?thesis
    by (simp add: overlay_def assms(2) bind_error_def zeros_def)
qed

lemma overlay_in_order:
  fixes sounds :: "'a::{zero,plus} list list"
  assumes "sounds \<noteq> []" and "get_num_samples delay_time (sampling_rate self) = int d"
  shows "\<exists>out. overlay self sounds delay_time = Inr out
     \<and> length out = Max ((\<lambda>i. i * d + length (sounds ! i)) ` {..<length sounds})
     \<and> (\<forall>i<length sounds. i * d + length (sounds ! i) \<le> length out)
     \<and> (\<forall>j<length out.
           out ! j = foldl (+) 0
                       (map (\<lambda>i. sounds ! i ! (j - i * d))
                          (filter (\<lambda>i. i * d \<le> j \<and> j < i * d + length (sounds ! i))
                             [0..<length sounds])))"
proof -
  let ?m = "Max ((\<lambda>i. i * d + length (sounds ! i)) ` {..<length sounds})"
  have fit: "\<forall>i<length sounds. i * d + length (sounds ! i) \<le> ?m"
    by simp
  then have "\<forall>i<length sounds. i * d + length (sounds ! i) \<le> length (replicate ?m (0::'a))"
    by simp
  from overlay_loop_in_range [OF this] obtain out where
    run: "overlay_loop (int d) 0 sounds (replicate ?m 0) = Inr out"
    and len: "length out = ?m"
    and nth: "\<forall>j<?m. out ! j = foldl (+) (replicate ?m 0 ! j)
                        (map (\<lambda>i. sounds ! i ! (j - i * d))
                           (filter (\<lambda>i. i * d \<le> j \<and> j < i * d + length (sounds ! i))
                              [0..<length sounds]))"
    by auto
  have "overlay self sounds delay_time = Inr out"
    by (simp only: overlay_nonneg_delay [OF assms] run)
  moreover have "\<forall>j<length out.
           out ! j = foldl (+) 0
                       (map (\<lambda>i. sounds ! i ! (j - i * d))
                          (filter (\<lambda>i. i * d \<le> j \<and> j < i * d + length (sounds ! i))
                             [0..<length sounds]))"
    using nth by (simp add: len)
  ultimately show ?thesis using len fit by auto
qed

text \<open>
  C2, as the claim states it, fails for a delay below zero, which nothing in
  \<^verbatim>\<open>_overlay\<close> excludes. At 4 samples per second a delay of -0.25 s is \<open>d = -1\<close>; for
  the strings \<open>[1, 2, 3]\<close> and \<open>[10, 20]\<close> the output has \<open>max(3, 1) = 3\<close> samples, the
  slice \<^verbatim>\<open>samples[-1:1]\<close> of the second string is empty, and adding two samples to it
  raises \<^verbatim>\<open>ValueError\<close>.
\<close>

theorem overlay_negative_delay_counterexample:
  "[[1, 2, 3], [10, 20 :: real]] \<noteq> []
   \<and> get_num_samples (Time (- (1 / 4))) (sampling_rate example_synth) = - 1
   \<and> overlay example_synth [[1, 2, 3], [10, 20 :: real]] (Time (- (1 / 4))) = Inl ValueError"
proof -
  have d: "get_num_samples (Time (- (1 / 4))) (sampling_rate example_synth) = - 1"
    by code_simp
  have "overlay example_synth [[1, 2, 3], [10, 20 :: real]] (Time (- (1 / 4))) = Inl ValueError"
    by code_simp
  with d show ?thesis by simp
qed

text \<open>
  C2, amended. For a non-empty sequence of waveforms and a delay of \<open>d \<ge> 0\<close> samples per string,
  \<^verbatim>\<open>_overlay\<close> returns a waveform whose length is the maximum over all \<open>i\<close> of
  \<open>i * d + len(sounds[i])\<close>, so no string is truncated, and whose sample \<open>j\<close> is zero
  plus, in the order of the strings, the sample \<open>j - i * d\<close> of every string \<open>i\<close> that
  covers position \<open>j\<close>: the strings are added, none replaces another.
\<close>

theorem overlay_mixes_at_offsets:
  fixes sounds :: "'a::{zero,plus} list list"
  assumes "sounds \<noteq> []" and "get_num_samples delay_time (sampling_rate self) = int d"
  shows "\<exists>out. overlay self sounds delay_time = Inr out
     \<and> length out = Max ((\<lambda>i. i * d + length (sounds ! i)) ` {..<length sounds})
     \<and> (\<forall>i<length sounds. i * d + length (sounds ! i) \<le> length out)
     \<and> (\<forall>j<length out.
           out ! j = foldl (+) 0
                       (map (\<lambda>i. sounds ! i ! (j - i * d))
                          (filter (\<lambda>i. i * d \<le> j \<and> j < i * d + length (sounds ! i))
                             [0..<length sounds])))"
  using assms by (rule overlay_in_order)

lemma example_overlay_long_first:
  "overlay example_synth [[1, 2, 3, 4, 5, 6], [10, 20 :: real]] (Time (1 / 2)) = Inr [1, 2, 13, 24, 5, 6]"
  by code_simp

theorem overlay_mixes_at_offsets_witness:
  "[[1, 2, 3, 4, 5, 6], [10, 20 :: real]] \<noteq> []
   \<and> get_num_samples (Time (1 / 2)) (sampling_rate example_synth) = int 2
   \<and> overlay example_synth [[1, 2, 3, 4, 5, 6], [10, 20 :: real]] (Time (1 / 2))
       = Inr [1, 2, 13, 24, 5, 6]
   \<and> length [1, 2, 13, 24, 5, 6 :: real]
       = Max ((\<lambda>i. i * 2 + length ([[1, 2, 3, 4, 5, 6], [10, 20 :: real]] ! i))
                ` {..<length [[1, 2, 3, 4, 5, 6], [10, 20 :: real]]})
   \<and> [1, 2, 13, 24, 5, 6 :: real] ! 3
       = foldl (+) 0
           (map (\<lambda>i. [[1, 2, 3, 4, 5, 6], [10, 20 :: real]] ! i ! (3 - i * 2))
              (filter (\<lambda>i. i * 2 \<le> 3 \<and> 3 < i * 2 + length ([[1, 2, 3, 4, 5, 6], [10, 20 :: real]] ! i))
                 [0..<length [[1, 2, 3, 4, 5, 6], [10, 20 :: real]]]))"
proof -
  have h1: "[[1, 2, 3, 4, 5, 6], [10, 20 :: real]] \<noteq> []" by simp
  have h2: "get_num_samples (Time (1 / 2)) (sampling_rate example_synth) = int 2"
    by (simp add: example_synth_def get_num_samples_def py_round_def)
  from overlay_mixes_at_offsets [OF h1 h2] obtain out where
    o: "overlay example_synth [[1, 2, 3, 4, 5, 6], [10, 20 :: real]] (Time (1 / 2)) = Inr out"
    and l: "length out = Max ((\<lambda>i. i * 2 + length ([[1, 2, 3, 4, 5, 6], [10, 20 :: real]] ! i))
                ` {..<length [[1, 2, 3, 4, 5, 6], [10, 20 :: real]]})"
    and n: "\<forall>j<length out.
           out ! j = foldl (+) 0
                       (map (\<lambda>i. [[1, 2, 3, 4, 5, 6], [10, 20 :: real]] ! i ! (j - i * 2))
                          (filter (\<lambda>i. i * 2 \<le> j \<and> j < i * 2 + length ([[1, 2, 3, 4, 5, 6], [10, 20 :: real]] ! i))
                             [0..<length [[1, 2, 3, 4, 5, 6], [10, 20 :: real]]]))"
    by blast
  from o have out: "out = [1, 2, 13, 24, 5, 6]"
    by (simp only: example_overlay_long_first sum.inject)
  have "(3 :: nat) < length out" by (simp add: out)
  with n have "out ! 3 = foldl (+) 0
           (map (\<lambda>i. [[1, 2, 3, 4, 5, 6], [10, 20 :: real]] ! i ! (3 - i * 2))
              (filter (\<lambda>i. i * 2 \<le> 3 \<and> 3 < i * 2 + length ([[1, 2, 3, 4, 5, 6], [10, 20 :: real]] ! i))
                 [0..<length [[1, 2, 3, 4, 5, 6], [10, 20 :: real]]]))"
    by blast
  with h1 h2 l example_overlay_long_first show ?thesis
    unfolding out by blast
qed

subsection \<open>A strum without delay\<close>

lemma foldl_add_sum_list:
  fixes a :: "'a::monoid_add"
  shows "foldl (+) a xs = a + sum_list xs"
  by (induction xs arbitrary: a) (simp_all add: add.assoc)

lemma column_by_index:
  "map (\<lambda>i. sounds ! i ! j) (filter (\<lambda>i. j < length (sounds ! i)) [0..<length sounds])
     = map (\<lambda>s. s ! j) (filter (\<lambda>s. j < length s) sounds)"
proof -
  have "map (\<lambda>s. s ! j) (filter (\<lambda>s. j < length s) (map ((!) sounds) [0..<length sounds]))
      = map (\<lambda>i. sounds ! i ! j) (filter (\<lambda>i. j < length (sounds ! i)) [0..<length sounds])"
    by (simp add: filter_map comp_def)
  then show ?thesis by (simp only: map_nth)
qed

lemma overlay_simultaneous:
  fixes sounds :: "'a::comm_monoid_add list list"
  assumes "sounds \<noteq> []" and "get_num_samples delay_time (sampling_rate self) = 0"
  shows "\<exists>out. overlay self sounds delay_time = Inr out
     \<and> length out = Max (length ` set sounds)
     \<and> (\<forall>j<length out.
           out ! j = sum_list (map (\<lambda>s. s ! j) (filter (\<lambda>s. j < length s) sounds)))"
proof -
  from assms(2) have d: "get_num_samples delay_time (sampling_rate self) = int 0" by simp
  from overlay_in_order [OF assms(1) d] obtain out where
    o: "overlay self sounds delay_time = Inr out"
    and l: "length out = Max ((\<lambda>i. i * 0 + length (sounds ! i)) ` {..<length sounds})"
    and n: "\<forall>j<length out.
           out ! j = foldl (+) 0
                       (map (\<lambda>i. sounds ! i ! (j - i * 0))
                          (filter (\<lambda>i. i * 0 \<le> j \<and> j < i * 0 + length (sounds ! i))
                             [0..<length sounds]))"
    by blast
  have "(\<lambda>i. i * 0 + length (sounds ! i)) ` {..<length sounds} = length ` set sounds"
  proof -
    have "set sounds = (!) sounds ` {..<length sounds}"
      by (auto simp add: set_conv_nth)
    then have "length ` set sounds = (\<lambda>i. length (sounds ! i)) ` {..<length sounds}"
      by (simp only: image_image)
    then show ?thesis by simp
  qed
  with l have l': "length out = Max (length ` set sounds)" by simp
  have "out ! j = sum_list (map (\<lambda>s. s ! j) (filter (\<lambda>s. j < length s) sounds))"
    if "j < length out" for j
    using n [rule_format, OF that] by (simp add: foldl_add_sum_list column_by_index)
  with o l' show ?thesis by blast
qed

text \<open>
  C10, as the claim states it, fails on \<^verbatim>\<open>float64\<close> samples: the sum of three strings
  is rounded after each addition, and the order of the additions shows. With the strings
  \<open>[2^53]\<close>, \<open>[1]\<close>, \<open>[1]\<close> in this order the output is \<open>[2^53]\<close> (twice \<open>2^53 + 1\<close> is
  rounded to \<open>2^53\<close>); with the strings \<open>[1]\<close>, \<open>[1]\<close>, \<open>[2^53]\<close> it is \<open>[2^53 + 2]\<close>.
\<close>

theorem overlay_float64_order_counterexample:
  "get_num_samples (Time 0) (sampling_rate example_synth) = 0
   \<and> mset [[Whole 1], [Whole 1], [Whole 9007199254740992]]
       = mset [[Whole 9007199254740992], [Whole 1], [Whole 1]]
   \<and> overlay example_synth [[Whole 9007199254740992], [Whole 1], [Whole 1]] (Time 0)
       = Inr [Whole 9007199254740992]
   \<and> overlay example_synth [[Whole 1], [Whole 1], [Whole 9007199254740992]] (Time 0)
       = Inr [Whole 9007199254740994]"
proof -
  have n: "get_num_samples (Time 0) (sampling_rate example_synth) = 0"
    by (simp add: get_num_samples_def py_round_def)
  have m: "mset [[Whole 1], [Whole 1], [Whole 9007199254740992]]
       = mset [[Whole 9007199254740992], [Whole 1], [Whole 1]]"
    by simp
  have a: "overlay example_synth [[Whole 9007199254740992], [Whole 1], [Whole 1]] (Time 0)
       = Inr [Whole 9007199254740992]"
    by code_simp
  have b: "overlay example_synth [[Whole 1], [Whole 1], [Whole 9007199254740992]] (Time 0)
       = Inr [Whole 9007199254740994]"
    by code_simp
  from n m a b show ?thesis by blast
qed

text \<open>
  C10, amended. Where the addition of samples is associative and commutative with
  \<open>0\<close> neutral (exact arithmetic), for a non-empty sequence of waveforms and a delay of
  zero samples: the output has the length of the longest input, its sample \<open>j\<close> is the
  sum of the samples \<open>j\<close> of all inputs that have one, and the output is the same for
  every permutation of the sequence.
\<close>

theorem overlay_simultaneous_permutation:
  fixes sounds :: "'a::comm_monoid_add list list"
  assumes "sounds \<noteq> []" and "get_num_samples delay_time (sampling_rate self) = 0"
    and "mset sounds' = mset sounds"
  shows "overlay self sounds' delay_time = overlay self sounds delay_time
     \<and> (\<exists>out. overlay self sounds delay_time = Inr out
          \<and> length out = Max (length ` set sounds)
          \<and> (\<forall>j<length out.
                out ! j = sum_list (map (\<lambda>s. s ! j) (filter (\<lambda>s. j < length s) sounds))))"
proof -
  from assms(1,3) have ne': "sounds' \<noteq> []" by auto
  from overlay_simultaneous [OF assms(1,2)] obtain out where
    o: "overlay self sounds delay_time = Inr out"
    and l: "length out = Max (length ` set sounds)"
    and n: "\<forall>j<length out.
           out ! j = sum_list (map (\<lambda>s. s ! j) (filter (\<lambda>s. j < length s) sounds))"
    by blast
  from overlay_simultaneous [OF ne' assms(2)] obtain out' where
    o': "overlay self sounds' delay_time = Inr out'"
    and l': "length out' = Max (length ` set sounds')"
    and n': "\<forall>j<length out'.
           out' ! j = sum_list (map (\<lambda>s. s ! j) (filter (\<lambda>s. j < length s) sounds'))"
    by blast
  have set_eq: "set sounds' = set sounds"
    using assms(3) by (rule mset_eq_setD)
  have col: "sum_list (map (\<lambda>s. s ! j) (filter (\<lambda>s. j < length s) sounds'))
      = sum_list (map (\<lambda>s. s ! j) (filter (\<lambda>s. j < length s) sounds))" for j
  proof -
    have "mset (map (\<lambda>s. s ! j) (filter (\<lambda>s. j < length s) sounds'))
        = mset (map (\<lambda>s. s ! j) (filter (\<lambda>s. j < length s) sounds))"
      by (simp add: assms(3))
    then show ?thesis by (metis sum_mset_sum_list)
  qed
  have "out' = out"
  proof (rule nth_equalityI)
    show "length out' = length out" by (simp add: l l' set_eq)
  next
    fix j assume "j < length out'"
    then show "out' ! j = out ! j"
      using n n' by (simp add: col l l' set_eq)
  qed
  with o o' l n show ?thesis by auto
qed

lemma example_overlay_simultaneous:
  "overlay example_synth [[1, 2, 3], [10, 20], [100 :: real]] (Time 0) = Inr [111, 22, 3]"
  by code_simp

theorem overlay_simultaneous_permutation_witness:
  "[[1, 2, 3], [10, 20], [100 :: real]] \<noteq> []
   \<and> get_num_samples (Time 0) (sampling_rate example_synth) = 0
   \<and> mset [[100], [1, 2, 3], [10, 20 :: real]] = mset [[1, 2, 3], [10, 20], [100]]
   \<and> overlay example_synth [[100], [1, 2, 3], [10, 20 :: real]] (Time 0) = Inr [111, 22, 3]
   \<and> overlay example_synth [[1, 2, 3], [10, 20], [100 :: real]] (Time 0) = Inr [111, 22, 3]
   \<and> length [111, 22, 3 :: real] = Max (length ` set [[1, 2, 3], [10, 20], [100 :: real]])"
proof -
  have h1: "[[1, 2, 3], [10, 20], [100 :: real]] \<noteq> []" by simp
  have h2: "get_num_samples (Time 0) (sampling_rate example_synth) = 0"
    by (simp add: get_num_samples_def py_round_def)
  have h3: "mset [[100], [1, 2, 3], [10, 20 :: real]] = mset [[1, 2, 3], [10, 20], [100]]"
    by simp
  note t = overlay_simultaneous_permutation [OF h1 h2 h3]
  from t have a: "overlay example_synth [[100], [1, 2, 3], [10, 20 :: real]] (Time 0) = Inr [111, 22, 3]"
    by (simp only: example_overlay_simultaneous)
  from t have "\<exists>out. Inr [111, 22, 3] = (Inr out :: error + real list)
      \<and> length out = Max (length ` set [[1, 2, 3], [10, 20], [100 :: real]])"
    unfolding example_overlay_simultaneous by blast
  then have b: "length [111, 22, 3 :: real] = Max (length ` set [[1, 2, 3], [10, 20], [100 :: real]])"
    by (metis sum.inject(2))
  from h1 h2 h3 a b example_overlay_simultaneous show ?thesis by blast
qed

section \<open>Properties of \<^verbatim>\<open>strum_strings\<close>\<close>

subsection \<open>A chord without pitches\<close>

text \<open>
  C7. The claim does not hold of the code: for a chord whose stroke has no pitch,
  \<^verbatim>\<open>_overlay\<close> is called with an empty sequence, Python's \<^verbatim>\<open>max\<close> of an empty
  iterable raises \<^verbatim>\<open>ValueError\<close>, and so does \<^verbatim>\<open>strum_strings\<close>.
\<close>

theorem strum_strings_no_pitches_raises:
  "upstroke (instrument example_synth) [] = []
   \<and> overlay example_synth ([] :: real list list) (Time (1 / 4)) = Inl ValueError
   \<and> strum_strings example_processing example_synth Map.empty []
        \<lparr>direction = UP, delay = Time (1 / 4)\<rparr> None
       = Some (Inl ValueError, Map.empty)"
  by (simp add: strum_strings_def overlay_def py_max_def bind_error_def example_synth_def
      example_instrument_def)

subsection \<open>The memo table of \<^verbatim>\<open>_vibrate\<close>\<close>

lemma cached_vibrate_result:
  assumes "vibrate_cache_ok proc self memo"
  shows "map_option fst (cached_vibrate proc self memo freq duration damp)
           = vibrate proc self freq duration damp"
proof (cases "memo (freq, duration, damp)")
  case None
  then show ?thesis
    by (simp add: cached_vibrate_def split: option.splits sum.splits)
next
  case (Some sound)
  with assms have "vibrate proc self freq duration damp = Some (Inr sound)"
    by (simp add: vibrate_cache_ok_def)
  with Some show ?thesis by (simp add: cached_vibrate_def)
qed

lemma cached_vibrate_keeps_ok:
  assumes "vibrate_cache_ok proc self memo"
    and "cached_vibrate proc self memo freq duration damp = Some (r, memo')"
  shows "vibrate_cache_ok proc self memo'"
proof (cases "memo (freq, duration, damp)")
  case (Some sound)
  with assms show ?thesis by (simp add: cached_vibrate_def)
next
  case None
  show ?thesis
  proof (cases "vibrate proc self freq duration damp")
    case n: None
    with None assms(2) show ?thesis by (simp add: cached_vibrate_def)
  next
    case s: (Some v)
    show ?thesis
    proof (cases v)
      case (Inl e)
      with None s assms show ?thesis by (simp add: cached_vibrate_def)
    next
      case (Inr sound)
      with None s assms(2) have m: "memo' = memo((freq, duration, damp) \<mapsto> sound)"
        by (simp add: cached_vibrate_def)
      show ?thesis
        unfolding vibrate_cache_ok_def m
        using assms(1) s Inr by (auto simp add: vibrate_cache_ok_def)
    qed
  qed
qed

lemma cached_vibrate_dom:
  assumes "cached_vibrate proc self memo freq duration damp = Some (Inr sound, memo')"
  shows "dom memo' = insert (freq, duration, damp) (dom memo)"
  using assms
  by (auto simp add: cached_vibrate_def split: option.splits sum.splits)


lemma vibrate_each_result:
  "vibrate_cache_ok proc self memo \<Longrightarrow>
   map_option fst (vibrate_each proc self memo pitches vib damp)
     = vibrate_all proc self pitches vib damp
   \<and> (\<forall>r memo'. vibrate_each proc self memo pitches vib damp = Some (r, memo') \<longrightarrow>
         vibrate_cache_ok proc self memo')"
proof (induction pitches arbitrary: memo)
  case Nil
  then show ?case by simp
next
  case (Cons pitch rest)
  note res = cached_vibrate_result [OF Cons.prems, of "frequency pitch" vib damp]
  show ?case
  proof (cases "cached_vibrate proc self memo (frequency pitch) vib damp")
    case None
    with res show ?thesis by simp
  next
    case (Some p)
    obtain r memo1 where p: "p = (r, memo1)" by (cases p)
    from Some p res have v: "vibrate proc self (frequency pitch) vib damp = Some r" by simp
    from Some p have ok1: "vibrate_cache_ok proc self memo1"
      by (simp add: cached_vibrate_keeps_ok [OF Cons.prems])
    show ?thesis
    proof (cases r)
      case (Inl e)
      with Some p v ok1 show ?thesis by simp
    next
      case (Inr sound)
      from Cons.IH [OF ok1]
      have ih1: "map_option fst (vibrate_each proc self memo1 rest vib damp)
                   = vibrate_all proc self rest vib damp"
        and ih2: "\<And>r memo'. vibrate_each proc self memo1 rest vib damp = Some (r, memo')
                   \<Longrightarrow> vibrate_cache_ok proc self memo'"
        by blast+
      show ?thesis
      proof (cases "vibrate_each proc self memo1 rest vib damp")
        case None
        with ih1 have "vibrate_all proc self rest vib damp = None" by simp
        with None Some p v Inr show ?thesis by simp
      next
        case e: (Some q)
        obtain r' memo2 where q: "q = (r', memo2)" by (cases q)
        from e q ih1 have a: "vibrate_all proc self rest vib damp = Some r'" by simp
        from e q have ok2: "vibrate_cache_ok proc self memo2" by (simp add: ih2)
        from Some p v Inr e q a ok2 show ?thesis
          by (cases r') simp_all
      qed
    qed
  qed
qed

lemma vibrate_each_sounds:
  "list_all2 (\<lambda>pitch sound. vibrate proc self (frequency pitch) vib damp = Some (Inr sound))
     pitches sounds \<Longrightarrow>
   vibrate_cache_ok proc self memo \<Longrightarrow>
   \<exists>memo'. vibrate_each proc self memo pitches vib damp = Some (Inr sounds, memo')
     \<and> vibrate_cache_ok proc self memo'
     \<and> dom memo' = dom memo \<union> (\<lambda>pitch. (frequency pitch, vib, damp)) ` set pitches"
proof (induction arbitrary: memo rule: list_all2_induct)
  case Nil
  then show ?case by simp
next
  case (Cons pitch pitches sound sounds)
  from cached_vibrate_result [OF Cons.prems, of "frequency pitch" vib damp] Cons.hyps(1)
  obtain memo1 where c: "cached_vibrate proc self memo (frequency pitch) vib damp
      = Some (Inr sound, memo1)"
    by (cases "cached_vibrate proc self memo (frequency pitch) vib damp") auto
  have ok1: "vibrate_cache_ok proc self memo1"
    by (rule cached_vibrate_keeps_ok [OF Cons.prems c])
  have d1: "dom memo1 = insert (frequency pitch, vib, damp) (dom memo)"
    by (rule cached_vibrate_dom [OF c])
  from Cons.IH [OF ok1] obtain memo' where
    e: "vibrate_each proc self memo1 pitches vib damp = Some (Inr sounds, memo')"
    and ok': "vibrate_cache_ok proc self memo'"
    and d': "dom memo' = dom memo1 \<union> (\<lambda>pitch. (frequency pitch, vib, damp)) ` set pitches"
    by blast
  have "vibrate_each proc self memo (pitch # pitches) vib damp = Some (Inr (sound # sounds), memo')"
    by (simp add: c e)
  moreover have "dom memo' = dom memo \<union> (\<lambda>pitch. (frequency pitch, vib, damp)) ` set (pitch # pitches)"
    by (simp add: d' d1)
  ultimately show ?case using ok' by blast
qed

subsection \<open>The composition\<close>

text \<open>
  C5. With consistent memo tables, \<^verbatim>\<open>strum_strings\<close> (1) takes the vibration of the
  instrument when none is given, (2) takes the upstroke of the chord when the direction
  of the velocity is \<^verbatim>\<open>UP\<close> and the downstroke otherwise, (3) calls \<^verbatim>\<open>_vibrate\<close> for
  every pitch of the stroke, in its order, with the frequency of the pitch, that
  vibration and the damping of the instrument (after the call the memo table of
  \<^verbatim>\<open>_vibrate\<close> holds exactly these keys besides those it held), and (4), when these
  calls return the waveforms \<open>sounds\<close>, returns the overlay of \<open>sounds\<close>, in the same
  order, with the delay of the velocity.
\<close>

theorem strum_strings_composition:
  assumes "vibrate_cache_ok proc self memo"
    and "vib = (case vibration_arg of None \<Rightarrow> vibration (instrument self) | Some t \<Rightarrow> t)"
    and "pitches = (if direction velocity = UP then upstroke (instrument self) chord
                    else downstroke (instrument self) chord)"
    and "list_all2
           (\<lambda>pitch sound.
              vibrate proc self (frequency pitch) vib (damping (instrument self)) = Some (Inr sound))
           pitches sounds"
  shows "\<exists>memo'. strum_strings proc self memo chord velocity vibration_arg
                    = Some (overlay self sounds (delay velocity), memo')
     \<and> vibrate_cache_ok proc self memo'
     \<and> dom memo' = dom memo
          \<union> (\<lambda>pitch. (frequency pitch, vib, damping (instrument self))) ` set pitches"
proof -
  from vibrate_each_sounds [OF assms(4,1)] obtain memo' where
    e: "vibrate_each proc self memo pitches vib (damping (instrument self)) = Some (Inr sounds, memo')"
    and ok: "vibrate_cache_ok proc self memo'"
    and d: "dom memo' = dom memo
          \<union> (\<lambda>pitch. (frequency pitch, vib, damping (instrument self))) ` set pitches"
    by blast
  have "strum_strings proc self memo chord velocity vibration_arg
          = Some (overlay self sounds (delay velocity), memo')"
    using e unfolding assms(2,3) by (simp add: strum_strings_def Let_def if_distribR)
  with ok d show ?thesis by blast
qed


lemma example_vibrate_2:
  "vibrate example_processing example_synth 2 (Time (3 / 4)) (1 / 2) = Some (Inr [1, - 1, 0])"
  by code_simp

lemma example_vibrate_1:
  "vibrate example_processing example_synth 1 (Time (3 / 4)) (1 / 2)
     = Some (Inr [1 / 2, - 1, 1 / 2])"
  by code_simp

lemma example_overlay_strum:
  "overlay example_synth [[1, - 1, 0], [1 / 2, - 1, 1 / 2 :: real]] (Time (1 / 4))
     = Inr [1, - (1 / 2), - 1, 1 / 2]"
  by code_simp

theorem strum_strings_composition_witness:
  "vibrate_cache_ok example_processing example_synth Map.empty
   \<and> Time (3 / 4) = (case None of None \<Rightarrow> vibration (instrument example_synth) | Some t \<Rightarrow> t)
   \<and> [\<lparr>frequency = 2\<rparr>, \<lparr>frequency = 1\<rparr>]
       = (if direction \<lparr>direction = UP, delay = Time (1 / 4)\<rparr> = UP
          then upstroke (instrument example_synth) [2, 1]
          else downstroke (instrument example_synth) [2, 1])
   \<and> list_all2
         (\<lambda>pitch sound.
            vibrate example_processing example_synth (frequency pitch) (Time (3 / 4))
              (damping (instrument example_synth)) = Some (Inr sound))
         [\<lparr>frequency = 2\<rparr>, \<lparr>frequency = 1\<rparr>] [[1, - 1, 0], [1 / 2, - 1, 1 / 2]]
   \<and> (\<exists>memo'. strum_strings example_processing example_synth Map.empty [2, 1]
                   \<lparr>direction = UP, delay = Time (1 / 4)\<rparr> None
                 = Some (Inr [1, - (1 / 2), - 1, 1 / 2], memo')
          \<and> dom memo' = {(2, Time (3 / 4), 1 / 2), (1, Time (3 / 4), 1 / 2)})"
proof -
  have h1: "vibrate_cache_ok example_processing example_synth Map.empty"
    by (rule vibrate_cache_ok_empty)
  have h2: "Time (3 / 4)
      = (case None of None \<Rightarrow> vibration (instrument example_synth) | Some t \<Rightarrow> t)"
    by (simp add: example_synth_def example_instrument_def)
  have h3: "[\<lparr>frequency = 2\<rparr>, \<lparr>frequency = 1\<rparr>]
       = (if direction \<lparr>direction = UP, delay = Time (1 / 4)\<rparr> = UP
          then upstroke (instrument example_synth) [2, 1]
          else downstroke (instrument example_synth) [2, 1])"
    by (simp add: example_synth_def example_instrument_def)
  have d: "damping (instrument example_synth) = 1 / 2"
    by (simp add: example_synth_def example_instrument_def)
  have h4: "list_all2
         (\<lambda>pitch sound.
            vibrate example_processing example_synth (frequency pitch) (Time (3 / 4))
              (damping (instrument example_synth)) = Some (Inr sound))
         [\<lparr>frequency = 2\<rparr>, \<lparr>frequency = 1\<rparr>] [[1, - 1, 0], [1 / 2, - 1, 1 / 2]]"
    by (simp add: d example_vibrate_2 example_vibrate_1)
  from strum_strings_composition [OF h1 h2 h3 h4] obtain memo' where
    s: "strum_strings example_processing example_synth Map.empty [2, 1]
          \<lparr>direction = UP, delay = Time (1 / 4)\<rparr> None
        = Some (overlay example_synth [[1, - 1, 0], [1 / 2, - 1, 1 / 2]]
                  (delay \<lparr>direction = UP, delay = Time (1 / 4)\<rparr>), memo')"
    and m: "dom memo' = dom (Map.empty :: vibrate_cache)
          \<union> (\<lambda>pitch. (frequency pitch, Time (3 / 4), damping (instrument example_synth)))
              ` set [\<lparr>frequency = 2\<rparr>, \<lparr>frequency = 1\<rparr>]"
    by blast
  from s have s': "strum_strings example_processing example_synth Map.empty [2, 1]
          \<lparr>direction = UP, delay = Time (1 / 4)\<rparr> None
        = Some (Inr [1, - (1 / 2), - 1, 1 / 2], memo')"
    by (simp add: example_overlay_strum)
  from m have m': "dom memo' = {(2, Time (3 / 4), 1 / 2), (1, Time (3 / 4), 1 / 2)}"
    by (simp add: d)
  from h1 h2 h3 h4 s' m' show ?thesis by blast
qed

subsection \<open>Determinism\<close>

lemma strum_strings_result:
  assumes "vibrate_cache_ok proc self memo"
  shows "map_option fst (strum_strings proc self memo chord velocity vibration_arg)
           = strum_uncached proc self chord velocity vibration_arg
     \<and> (\<forall>r memo'. strum_strings proc self memo chord velocity vibration_arg = Some (r, memo') \<longrightarrow>
           vibrate_cache_ok proc self memo')"
proof -
  let ?vib = "case vibration_arg of None \<Rightarrow> vibration (instrument self) | Some t \<Rightarrow> t"
  let ?stroke = "if direction velocity = UP then upstroke (instrument self)
                 else downstroke (instrument self)"
  let ?each = "vibrate_each proc self memo (?stroke chord) ?vib (damping (instrument self))"
  from vibrate_each_result [OF assms, of "?stroke chord" ?vib "damping (instrument self)"]
  have r: "map_option fst ?each
             = vibrate_all proc self (?stroke chord) ?vib (damping (instrument self))"
    and k: "\<And>r memo'. ?each = Some (r, memo') \<Longrightarrow> vibrate_cache_ok proc self memo'"
    by blast+
  show ?thesis
  proof (cases ?each)
    case None
    with r show ?thesis by (simp add: strum_strings_def strum_uncached_def Let_def)
  next
    case (Some p)
    obtain res memo1 where p: "p = (res, memo1)" by (cases p)
    from Some p r have a: "vibrate_all proc self (?stroke chord) ?vib (damping (instrument self))
        = Some res" by simp
    from Some p have ok: "vibrate_cache_ok proc self memo1" by (simp add: k)
    from Some p a ok show ?thesis
      by (cases res) (simp_all add: strum_strings_def strum_uncached_def Let_def)
  qed
qed

lemma cached_strum_strings_result:
  assumes "caches_ok proc self st"
  shows "map_option fst (cached_strum_strings proc self st chord velocity vibration_arg)
           = strum_uncached proc self chord velocity vibration_arg
     \<and> (\<forall>r st1. cached_strum_strings proc self st chord velocity vibration_arg = Some (r, st1) \<longrightarrow>
           caches_ok proc self st1)"
proof (cases "strum_memo st (chord, velocity, vibration_arg)")
  case (Some samples)
  with assms have "strum_uncached proc self chord velocity vibration_arg = Some (Inr samples)"
    by (simp add: caches_ok_def)
  with Some assms show ?thesis by (simp add: cached_strum_strings_def)
next
  case None
  from assms have vok: "vibrate_cache_ok proc self (vibrate_memo st)"
    by (simp add: caches_ok_def)
  from assms have sok: "\<And>c v a samples. strum_memo st (c, v, a) = Some samples \<Longrightarrow>
      strum_uncached proc self c v a = Some (Inr samples)"
    by (simp add: caches_ok_def)
  let ?body = "strum_strings proc self (vibrate_memo st) chord velocity vibration_arg"
  from strum_strings_result [OF vok, of chord velocity vibration_arg]
  have r: "map_option fst ?body = strum_uncached proc self chord velocity vibration_arg"
    and k: "\<And>r memo'. ?body = Some (r, memo') \<Longrightarrow> vibrate_cache_ok proc self memo'"
    by blast+
  show ?thesis
  proof (cases ?body)
    case n: None
    with None r show ?thesis by (simp add: cached_strum_strings_def)
  next
    case s: (Some p)
    obtain res memo1 where p: "p = (res, memo1)" by (cases p)
    from s p r have a: "strum_uncached proc self chord velocity vibration_arg = Some res" by simp
    from s p have ok: "vibrate_cache_ok proc self memo1" by (simp add: k)
    show ?thesis
    proof (cases res)
      case (Inl e)
      with None s p a ok sok show ?thesis
        by (simp add: cached_strum_strings_def caches_ok_def)
    next
      case (Inr samples)
      with None s p a ok sok show ?thesis
        by (auto simp add: cached_strum_strings_def caches_ok_def)
    qed
  qed
qed

text \<open>
  C9. The memo tables hold only values the bodies returned (the empty tables do, and
  every call of \<^verbatim>\<open>_vibrate\<close> and of \<^verbatim>\<open>strum_strings\<close> keeps it so). In any two such
  states of the tables, \<^verbatim>\<open>_vibrate\<close> returns the same for the same frequency,
  duration and damping, and \<^verbatim>\<open>strum_strings\<close> returns the same for the same chord,
  velocity and vibration: what the body computes from these arguments, the
  synthesiser's burst generator and sampling rate. (\<^verbatim>\<open>_overlay\<close> has no state: it is a
  function of its arguments in the model.)
\<close>

theorem synthesiser_deterministic:
  assumes "caches_ok proc self st" and "caches_ok proc self st'"
  shows "map_option fst (cached_vibrate proc self (vibrate_memo st) freq duration damp)
           = map_option fst (cached_vibrate proc self (vibrate_memo st') freq duration damp)
     \<and> map_option fst (cached_vibrate proc self (vibrate_memo st) freq duration damp)
           = vibrate proc self freq duration damp
     \<and> map_option fst (cached_strum_strings proc self st chord velocity vibration_arg)
           = map_option fst (cached_strum_strings proc self st' chord velocity vibration_arg)
     \<and> map_option fst (cached_strum_strings proc self st chord velocity vibration_arg)
           = strum_uncached proc self chord velocity vibration_arg
     \<and> (\<forall>r memo1. cached_vibrate proc self (vibrate_memo st) freq duration damp = Some (r, memo1) \<longrightarrow>
           caches_ok proc self (st\<lparr>vibrate_memo := memo1\<rparr>))
     \<and> (\<forall>r st1. cached_strum_strings proc self st chord velocity vibration_arg = Some (r, st1) \<longrightarrow>
           caches_ok proc self st1)"
proof -
  from assms have v: "vibrate_cache_ok proc self (vibrate_memo st)"
    and v': "vibrate_cache_ok proc self (vibrate_memo st')"
    by (simp_all add: caches_ok_def)
  have a: "map_option fst (cached_vibrate proc self (vibrate_memo st) freq duration damp)
           = vibrate proc self freq duration damp"
    by (rule cached_vibrate_result [OF v])
  have a': "map_option fst (cached_vibrate proc self (vibrate_memo st') freq duration damp)
           = vibrate proc self freq duration damp"
    by (rule cached_vibrate_result [OF v'])
  note b = cached_strum_strings_result [OF assms(1), of chord velocity vibration_arg]
  note b' = cached_strum_strings_result [OF assms(2), of chord velocity vibration_arg]
  have c: "caches_ok proc self (st\<lparr>vibrate_memo := memo1\<rparr>)"
    if "cached_vibrate proc self (vibrate_memo st) freq duration damp = Some (r, memo1)" for r memo1
    using cached_vibrate_keeps_ok [OF v that] assms(1) by (simp add: caches_ok_def)
  from a a' b b' c show ?thesis by auto
qed


lemma example_strum_uncached:
  "strum_uncached example_processing example_synth [2, 1]
     \<lparr>direction = UP, delay = Time (1 / 4)\<rparr> None
   = Some (Inr [1, - (1 / 2), - 1, 1 / 2])"
  by code_simp

theorem synthesiser_deterministic_witness:
  "caches_ok example_processing example_synth
     \<lparr>vibrate_memo = Map.empty, strum_memo = Map.empty\<rparr>
   \<and> caches_ok example_processing example_synth
       \<lparr>vibrate_memo = [(2, Time (3 / 4), 1 / 2) \<mapsto> [1, - 1, 0]],
        strum_memo = [([2, 1], \<lparr>direction = UP, delay = Time (1 / 4)\<rparr>, None)
                        \<mapsto> [1, - (1 / 2), - 1, 1 / 2]]\<rparr>
   \<and> map_option fst (cached_vibrate example_processing example_synth Map.empty 2 (Time (3 / 4)) (1 / 2))
       = Some (Inr [1, - 1, 0])
   \<and> map_option fst
         (cached_vibrate example_processing example_synth
            [(2, Time (3 / 4), 1 / 2) \<mapsto> [1, - 1, 0]] 2 (Time (3 / 4)) (1 / 2))
       = Some (Inr [1, - 1, 0])
   \<and> map_option fst
         (cached_strum_strings example_processing example_synth
            \<lparr>vibrate_memo = Map.empty, strum_memo = Map.empty\<rparr>
            [2, 1] \<lparr>direction = UP, delay = Time (1 / 4)\<rparr> None)
       = Some (Inr [1, - (1 / 2), - 1, 1 / 2])
   \<and> map_option fst
         (cached_strum_strings example_processing example_synth
            \<lparr>vibrate_memo = [(2, Time (3 / 4), 1 / 2) \<mapsto> [1, - 1, 0]],
             strum_memo = [([2, 1], \<lparr>direction = UP, delay = Time (1 / 4)\<rparr>, None)
                             \<mapsto> [1, - (1 / 2), - 1, 1 / 2]]\<rparr>
            [2, 1] \<lparr>direction = UP, delay = Time (1 / 4)\<rparr> None)
       = Some (Inr [1, - (1 / 2), - 1, 1 / 2])"
proof -
  let ?st = "\<lparr>vibrate_memo = Map.empty, strum_memo = Map.empty\<rparr> :: Hertz list caches"
  let ?st' = "\<lparr>vibrate_memo = [(2, Time (3 / 4), 1 / 2) \<mapsto> [1, - 1, 0]],
        strum_memo = [([2, 1], \<lparr>direction = UP, delay = Time (1 / 4)\<rparr>, None)
                        \<mapsto> [1, - (1 / 2), - 1, 1 / 2]]\<rparr> :: Hertz list caches"
  have h1: "caches_ok example_processing example_synth ?st"
    by (simp add: caches_ok_def vibrate_cache_ok_def)
  have v2: "vibrate_cache_ok example_processing example_synth
      [(2, Time (3 / 4), 1 / 2) \<mapsto> [1, - 1, 0]]"
    unfolding vibrate_cache_ok_def
  proof (intro allI impI)
    fix freq :: real and duration :: Time and damp :: real and sound :: "real list"
    assume m: "[(2, Time (3 / 4), 1 / 2) \<mapsto> [1, - 1, 0]] (freq, duration, damp) = Some sound"
    have k: "(freq, duration, damp) = (2, Time (3 / 4), 1 / 2)"
    proof (rule ccontr)
      assume "(freq, duration, damp) \<noteq> (2, Time (3 / 4), 1 / 2)"
      with m show False by (metis fun_upd_other option.distinct(1))
    qed
    with m have "sound = [1, - 1, 0]" by (metis fun_upd_same option.inject)
    moreover from k have "freq = 2" and "duration = Time (3 / 4)" and "damp = 1 / 2"
      by blast+
    ultimately show "vibrate example_processing example_synth freq duration damp = Some (Inr sound)"
      by (simp only: example_vibrate_2)
  qed
  have s2: "strum_uncached example_processing example_synth chord velocity vibration_arg
      = Some (Inr samples)"
    if m: "[([2, 1], \<lparr>direction = UP, delay = Time (1 / 4)\<rparr>, None) \<mapsto> [1, - (1 / 2), - 1, 1 / 2]]
        (chord, velocity, vibration_arg) = Some samples"
    for chord :: "Hertz list" and velocity :: Velocity and vibration_arg :: "Time option"
      and samples :: "real list"
  proof -
    have k: "(chord, velocity, vibration_arg)
        = ([2, 1], \<lparr>direction = UP, delay = Time (1 / 4)\<rparr>, None)"
    proof (rule ccontr)
      assume "(chord, velocity, vibration_arg)
        \<noteq> ([2, 1], \<lparr>direction = UP, delay = Time (1 / 4)\<rparr>, None)"
      with m show False by (metis fun_upd_other option.distinct(1))
    qed
    with m have "samples = [1, - (1 / 2), - 1, 1 / 2]" by (metis fun_upd_same option.inject)
    moreover from k have "chord = [2, 1]"
      and "velocity = \<lparr>direction = UP, delay = Time (1 / 4)\<rparr>" and "vibration_arg = None"
      by blast+
    ultimately show ?thesis by (simp only: example_strum_uncached)
  qed
  have h2: "caches_ok example_processing example_synth ?st'"
    unfolding caches_ok_def using v2 s2 by simp
  note t = synthesiser_deterministic [OF h1 h2, of 2 "Time (3 / 4)" "1 / 2" "[2, 1]"
      "\<lparr>direction = UP, delay = Time (1 / 4)\<rparr>" None]
  note t1 = t [THEN conjunct1]
  note t2 = t [THEN conjunct2, THEN conjunct1]
  note t3 = t [THEN conjunct2, THEN conjunct2, THEN conjunct1]
  note t4 = t [THEN conjunct2, THEN conjunct2, THEN conjunct2, THEN conjunct1]
  from t2 have a: "map_option fst (cached_vibrate example_processing example_synth
        Map.empty 2 (Time (3 / 4)) (1 / 2)) = Some (Inr [1, - 1, 0])"
    by (simp add: example_vibrate_2)
  from t1 t2 have a': "map_option fst (cached_vibrate example_processing example_synth
        [(2, Time (3 / 4), 1 / 2) \<mapsto> [1, - 1, 0]] 2 (Time (3 / 4)) (1 / 2))
      = Some (Inr [1, - 1, 0])"
    by (simp add: example_vibrate_2)
  from t4 have b: "map_option fst (cached_strum_strings example_processing example_synth ?st
        [2, 1] \<lparr>direction = UP, delay = Time (1 / 4)\<rparr> None)
      = Some (Inr [1, - (1 / 2), - 1, 1 / 2])"
    by (simp only: example_strum_uncached)
  from t3 b have b': "map_option fst (cached_strum_strings example_processing example_synth ?st'
        [2, 1] \<lparr>direction = UP, delay = Time (1 / 4)\<rparr> None)
      = Some (Inr [1, - (1 / 2), - 1, 1 / 2])"
    by (simp only:)
  from h1 h2 a a' b b' show ?thesis by simp
qed

end
